theory Spec2Isabelle
  imports Complex_Main
begin

section \<open>Numbers of the notebook\<close>

text \<open>
  The notebook \<^verbatim>\<open>part2.ipynb\<close> computes with Python numbers and numpy
  \<^verbatim>\<open>float64\<close> scalars. Finite values are modelled as reals: rounding, overflow
  and underflow are not modelled. What is modelled are the special values that the
  arithmetic of the notebook produces without raising: dividing a numpy scalar by zero
  gives an infinity or \<^verbatim>\<open>nan\<close> (with a warning only), \<^verbatim>\<open>np.log\<close> of
  zero is \<^verbatim>\<open>-inf\<close>, of a negative number \<^verbatim>\<open>nan\<close>, and every comparison
  with \<^verbatim>\<open>nan\<close> is false. \<open>Fin 0\<close> is the zero of positive sign and \<open>NegZero\<close>
  the zero of negative sign; \<open>Fin r\<close> with \<open>r \<noteq> 0\<close> is the finite number \<open>r\<close>.
\<close>

datatype npfloat = Fin real | NegZero | PInf | NInf | NaN

fun is_nan :: "npfloat \<Rightarrow> bool" where
  "is_nan NaN = True"
| "is_nan _ = False"

fun is_inf :: "npfloat \<Rightarrow> bool" where
  "is_inf PInf = True"
| "is_inf NInf = True"
| "is_inf _ = False"

fun is_zero :: "npfloat \<Rightarrow> bool" where
  "is_zero (Fin r) = (r = 0)"
| "is_zero NegZero = True"
| "is_zero _ = False"

fun signbit :: "npfloat \<Rightarrow> bool" where
  "signbit (Fin r) = (r < 0)"
| "signbit NegZero = True"
| "signbit NInf = True"
| "signbit _ = False"

text \<open>The finite value of a number that is neither infinite nor \<^verbatim>\<open>nan\<close>.\<close>

fun fin_val :: "npfloat \<Rightarrow> real" where
  "fin_val (Fin r) = r"
| "fin_val _ = 0"

definition zero_of :: "bool \<Rightarrow> npfloat" where
  "zero_of negative = (if negative then NegZero else Fin 0)"

definition inf_of :: "bool \<Rightarrow> npfloat" where
  "inf_of negative = (if negative then NInf else PInf)"

text \<open>
  Addition: \<^verbatim>\<open>inf + (-inf)\<close> is \<^verbatim>\<open>nan\<close>; a sum that is zero has positive
  sign unless both summands are the negative zero.
\<close>

definition np_add :: "npfloat \<Rightarrow> npfloat \<Rightarrow> npfloat" where
  "np_add a b =
     (if is_nan a \<or> is_nan b then NaN
      else if is_inf a \<and> is_inf b then (if signbit a = signbit b then a else NaN)
      else if is_inf a then a
      else if is_inf b then b
      else if a = NegZero \<and> b = NegZero then NegZero
      else Fin (fin_val a + fin_val b))"

fun np_neg :: "npfloat \<Rightarrow> npfloat" where
  "np_neg (Fin r) = (if r = 0 then NegZero else Fin (- r))"
| "np_neg NegZero = Fin 0"
| "np_neg PInf = NInf"
| "np_neg NInf = PInf"
| "np_neg NaN = NaN"

definition np_sub :: "npfloat \<Rightarrow> npfloat \<Rightarrow> npfloat" where
  "np_sub a b = np_add a (np_neg b)"

text \<open>Multiplication: zero times infinity is \<^verbatim>\<open>nan\<close>; the sign is the product of the signs.\<close>

definition np_mul :: "npfloat \<Rightarrow> npfloat \<Rightarrow> npfloat" where
  "np_mul a b =
     (if is_nan a \<or> is_nan b then NaN
      else if (is_inf a \<and> is_zero b) \<or> (is_zero a \<and> is_inf b) then NaN
      else if is_inf a \<or> is_inf b then inf_of (signbit a \<noteq> signbit b)
      else if is_zero a \<or> is_zero b then zero_of (signbit a \<noteq> signbit b)
      else Fin (fin_val a * fin_val b))"

text \<open>
  Division of numpy scalars never raises: \<^verbatim>\<open>0/0\<close> and \<^verbatim>\<open>inf/inf\<close> are
  \<^verbatim>\<open>nan\<close>, a nonzero number over zero is an infinity, a finite number over an
  infinity is a zero, each with the sign of the quotient.
\<close>

definition np_div :: "npfloat \<Rightarrow> npfloat \<Rightarrow> npfloat" where
  "np_div a b =
     (if is_nan a \<or> is_nan b then NaN
      else if (is_inf a \<and> is_inf b) \<or> (is_zero a \<and> is_zero b) then NaN
      else if is_inf a then inf_of (signbit a \<noteq> signbit b)
      else if is_inf b then zero_of (signbit a \<noteq> signbit b)
      else if is_zero b then inf_of (signbit a \<noteq> signbit b)
      else if is_zero a then zero_of (signbit a \<noteq> signbit b)
      else Fin (fin_val a / fin_val b))"

fun np_exp :: "npfloat \<Rightarrow> npfloat" where
  "np_exp (Fin r) = Fin (exp r)"
| "np_exp NegZero = Fin 1"
| "np_exp PInf = PInf"
| "np_exp NInf = Fin 0"
| "np_exp NaN = NaN"

fun np_log :: "npfloat \<Rightarrow> npfloat" where
  "np_log (Fin r) = (if 0 < r then Fin (ln r) else if r = 0 then NInf else NaN)"
| "np_log NegZero = NInf"
| "np_log PInf = PInf"
| "np_log NInf = NaN"
| "np_log NaN = NaN"

text \<open>Comparisons: false as soon as one side is \<^verbatim>\<open>nan\<close>; the two zeros are equal.\<close>

definition np_lt :: "npfloat \<Rightarrow> npfloat \<Rightarrow> bool" where
  "np_lt a b =
     (if is_nan a \<or> is_nan b then False
      else if a = PInf \<or> b = NInf then False
      else if a = NInf \<or> b = PInf then True
      else fin_val a < fin_val b)"

definition np_gt :: "npfloat \<Rightarrow> npfloat \<Rightarrow> bool" where
  "np_gt a b = np_lt b a"

section \<open>Items\<close>

text \<open>
  \<^verbatim>\<open>Item = namedtuple('Item', ('value', 'weight', 'ratio'))\<close>. The value and the
  weight of an item are finite numbers (the sign of a zero among them is not kept: no
  operation of the notebook on them depends on it); the ratio is the result of a
  division and can be any float. The field \<^verbatim>\<open>value\<close> is written \<open>value'\<close>.
\<close>

datatype Item = Item (value': real) (weight: real) (ratio: npfloat)

section \<open>The online threshold algorithm\<close>

datatype error = ZeroDivisionError | OverflowError | OtherError

text \<open>
  The body of the \<^verbatim>\<open>for\<close> loop of \<^verbatim>\<open>online_knapsack\<close>, on the state
  \<open>(total_value, y)\<close>:
  \<^verbatim>\<open>
    for item in items:
        threshold = p_min if y < beta else p_min * np.exp(y/beta-1)
        if item.ratio > threshold and y + item.weight <= max_weight:
            y += item.weight
            total_value += item.value
  \<close>
\<close>

definition threshold :: "real \<Rightarrow> npfloat \<Rightarrow> real \<Rightarrow> npfloat" where
  "threshold p_min beta y =
     (if np_lt (Fin y) beta then Fin p_min
      else np_mul (Fin p_min) (np_exp (np_sub (np_div (Fin y) beta) (Fin 1))))"

fun online_loop :: "real \<Rightarrow> real \<Rightarrow> npfloat \<Rightarrow> Item list \<Rightarrow> real \<times> real \<Rightarrow> real \<times> real" where
  "online_loop p_min max_weight beta [] (total_value, y) = (total_value, y)"
| "online_loop p_min max_weight beta (item # items) (total_value, y) =
     (if np_gt (ratio item) (threshold p_min beta y) \<and> y + weight item \<le> max_weight
      then online_loop p_min max_weight beta items (total_value + value' item, y + weight item)
      else online_loop p_min max_weight beta items (total_value, y))"

text \<open>
  \<^verbatim>\<open>beta = max_weight / (1 + np.log(p_max / p_min))\<close>. The parameters are Python
  numbers, as in the notebook (\<^verbatim>\<open>p_min = 1\<close>, \<^verbatim>\<open>p_max = 5\<close>), so
  \<^verbatim>\<open>p_max / p_min\<close> is Python's division and raises \<^verbatim>\<open>ZeroDivisionError\<close> when
  \<^verbatim>\<open>p_min\<close> is zero; \<^verbatim>\<open>np.log\<close> returns a numpy scalar, so the remaining
  arithmetic is numpy's.
\<close>

definition beta_of :: "real \<Rightarrow> real \<Rightarrow> real \<Rightarrow> npfloat" where
  "beta_of p_min p_max max_weight =
     np_div (Fin max_weight) (np_add (Fin 1) (np_log (Fin (p_max / p_min))))"

definition online_knapsack :: "Item list \<Rightarrow> real \<Rightarrow> real \<Rightarrow> real \<Rightarrow> error + real" where
  "online_knapsack items p_min p_max max_weight =
     (if p_min = 0 then Inl ZeroDivisionError
      else Inr (fst (online_loop p_min max_weight (beta_of p_min p_max max_weight) items (0, 0))))"

section \<open>The offline optimizer\<close>

text \<open>
  \<^verbatim>\<open>offline_knapsack\<close> builds a linear program and hands it to scipy's
  \<^verbatim>\<open>linprog\<close>, which minimises \<open>c \<bullet> x\<close> subject to \<open>A_ub x \<le> b_ub\<close> and the
  bounds, and returns a result object; the notebook reads its field \<^verbatim>\<open>fun\<close>
  (written \<open>fun'\<close>), the value of the objective at the solution \<^verbatim>\<open>x\<close> (written
  \<open>x'\<close>). The solver is not part of the notebook: it is a parameter of the model.
\<close>

datatype OptimizeResult = OptimizeResult (x': "real list") (fun': real)

type_synonym linprog =
  "real list \<Rightarrow> real list list \<Rightarrow> real list \<Rightarrow> (real \<times> real) list \<Rightarrow> string \<Rightarrow> OptimizeResult"

text \<open>
  \<^verbatim>\<open>
    objective = np.array([-item.value for item in items])
    constraints = np.array([[item.weight for item in items]])
    b_ub = np.array([max_weight])
    bounds = bounds = [(0, 1),] * len(items)
    result = linprog(c=objective, A_ub=constraints, b_ub=b_ub, bounds=bounds, method="HiGHS")
    return result.fun
  \<close>
\<close>

definition offline_knapsack :: "linprog \<Rightarrow> Item list \<Rightarrow> real \<Rightarrow> real" where
  "offline_knapsack linprog items max_weight =
     (let objective = map (\<lambda>item. - value' item) items;
          constraints = [map weight items];
          b_ub = [max_weight];
          bounds = replicate (length items) (0, 1);
          result = linprog objective constraints b_ub bounds ''HiGHS''
      in fun' result)"

text \<open>
  The contract of the solver on one problem: the result is a feasible point, its
  \<^verbatim>\<open>fun\<close> is the objective there, and no feasible point has a smaller objective.
\<close>

definition dot :: "real list \<Rightarrow> real list \<Rightarrow> real" where
  "dot c x = sum_list (map2 (*) c x)"

definition lp_feasible :: "real list list \<Rightarrow> real list \<Rightarrow> (real \<times> real) list \<Rightarrow> real list \<Rightarrow> bool" where
  "lp_feasible A_ub b_ub bounds x \<longleftrightarrow>
     length x = length bounds
     \<and> list_all2 (\<lambda>row b. dot row x \<le> b) A_ub b_ub
     \<and> list_all2 (\<lambda>(lo, hi) xi. lo \<le> xi \<and> xi \<le> hi) bounds x"

definition lp_optimal ::
  "real list \<Rightarrow> real list list \<Rightarrow> real list \<Rightarrow> (real \<times> real) list \<Rightarrow> OptimizeResult \<Rightarrow> bool" where
  "lp_optimal c A_ub b_ub bounds result \<longleftrightarrow>
     lp_feasible A_ub b_ub bounds (x' result)
     \<and> fun' result = dot c (x' result)
     \<and> (\<forall>x. lp_feasible A_ub b_ub bounds x \<longrightarrow> fun' result \<le> dot c x)"

text \<open>The solver meets its contract on the problem that \<^verbatim>\<open>offline_knapsack\<close> builds.\<close>

definition linprog_solves :: "linprog \<Rightarrow> Item list \<Rightarrow> real \<Rightarrow> bool" where
  "linprog_solves linprog items max_weight \<longleftrightarrow>
     lp_optimal (map (\<lambda>item. - value' item) items) [map weight items] [max_weight]
       (replicate (length items) (0, 1))
       (linprog (map (\<lambda>item. - value' item) items) [map weight items] [max_weight]
          (replicate (length items) (0, 1)) ''HiGHS'')"

text \<open>A stand-in solver that answers with a fixed result, for concrete instances.\<close>

definition fixed_linprog :: "OptimizeResult \<Rightarrow> linprog" where
  "fixed_linprog result c A_ub b_ub bounds method = result"

text \<open>
  The fractional knapsack problem as the specification writes it: maximise
  \<open>\<Sum> value\<^sub>i x\<^sub>i\<close> subject to \<open>\<Sum> weight\<^sub>i x\<^sub>i \<le> max_weight\<close> and \<open>0 \<le> x\<^sub>i \<le> 1\<close>.
\<close>

definition knapsack_feasible :: "Item list \<Rightarrow> real \<Rightarrow> real list \<Rightarrow> bool" where
  "knapsack_feasible items max_weight x \<longleftrightarrow>
     length x = length items
     \<and> dot (map weight items) x \<le> max_weight
     \<and> (\<forall>xi \<in> set x. 0 \<le> xi \<and> xi \<le> 1)"

definition knapsack_value :: "Item list \<Rightarrow> real list \<Rightarrow> real" where
  "knapsack_value items x = dot (map value' items) x"

definition knapsack_maximum :: "Item list \<Rightarrow> real \<Rightarrow> real \<Rightarrow> bool" where
  "knapsack_maximum items max_weight m \<longleftrightarrow>
     (\<exists>x. knapsack_feasible items max_weight x \<and> knapsack_value items x = m)
     \<and> (\<forall>x. knapsack_feasible items max_weight x \<longrightarrow> knapsack_value items x \<le> m)"

section \<open>The generator of the experiment driver\<close>

text \<open>
  The items of one trial of \<^verbatim>\<open>test\<close>:
  \<^verbatim>\<open>
    weights = np.random.uniform(0, epsilon, n)
    values = np.random.uniform(p_min, p_max, n) * weights
    items = []
    for value, weight in zip(values, weights):
        item = Item(value, weight, value/weight)
        items.append(item)
  \<close>
  The random source is not part of the notebook: the two arrays it returns are
  parameters of the model. \<^verbatim>\<open>np.random.uniform(low, high, n)\<close> returns \<open>n\<close> samples
  of the half-open interval \<open>[low, high)\<close>, which includes \<open>low\<close>; rounding can
  return \<open>high\<close> itself.
\<close>

definition uniform_draws :: "real \<Rightarrow> real \<Rightarrow> nat \<Rightarrow> real list \<Rightarrow> bool" where
  "uniform_draws low high n xs \<longleftrightarrow> length xs = n \<and> (\<forall>x \<in> set xs. low \<le> x \<and> x \<le> high)"

definition gen_items :: "real list \<Rightarrow> real list \<Rightarrow> Item list" where
  "gen_items weights densities =
     (let values = map2 (*) densities weights
      in map (\<lambda>(v, w). Item v w (np_div (Fin v) (Fin w))) (zip values weights))"

section \<open>The algorithm as the specification words it\<close>

text \<open>
  The state of the online algorithm is the accepted weight and the accepted value, both
  0 at the start. Each step computes \<open>alpha = 1 + ln (p_max / p_min)\<close> and
  \<open>beta = max_weight / alpha\<close>, the threshold (\<open>p_min\<close> if the accepted weight is below
  \<open>beta\<close>, else \<open>p_min \<cdot> exp (accepted_weight / beta - 1)\<close>), and accepts the item
  in full iff its ratio exceeds the threshold and the accepted weight plus its weight
  is at most \<open>max_weight\<close>; the result is the accepted value after the last item.
\<close>

record state =
  accepted_weight :: real
  accepted_value :: real

definition spec_step :: "real \<Rightarrow> real \<Rightarrow> real \<Rightarrow> state \<Rightarrow> Item \<Rightarrow> state" where
  "spec_step p_min p_max max_weight s item =
     (let alpha = np_add (Fin 1) (np_log (Fin (p_max / p_min)));
          beta = np_div (Fin max_weight) alpha;
          t = (if np_lt (Fin (accepted_weight s)) beta then Fin p_min
               else np_mul (Fin p_min)
                      (np_exp (np_sub (np_div (Fin (accepted_weight s)) beta) (Fin 1))))
      in if np_gt (ratio item) t \<and> accepted_weight s + weight item \<le> max_weight
         then \<lparr>accepted_weight = accepted_weight s + weight item,
               accepted_value = accepted_value s + value' item\<rparr>
         else s)"

definition spec_run :: "Item list \<Rightarrow> real \<Rightarrow> real \<Rightarrow> real \<Rightarrow> state" where
  "spec_run items p_min p_max max_weight =
     foldl (spec_step p_min p_max max_weight) \<lparr>accepted_weight = 0, accepted_value = 0\<rparr> items"

text \<open>The threshold of the specification in real arithmetic, for \<open>beta \<noteq> 0\<close>.\<close>

definition spec_threshold :: "real \<Rightarrow> real \<Rightarrow> real \<Rightarrow> real \<Rightarrow> real" where
  "spec_threshold p_min p_max max_weight y =
     (let beta = max_weight / (1 + ln (p_max / p_min))
      in if y < beta then p_min else p_min * exp (y / beta - 1))"

text \<open>
  The fixed-threshold greedy: in arrival order, an item is accepted iff its ratio is
  above \<open>d\<close> and its weight fits the remaining capacity; an item that does not fit is
  skipped and the later items are still looked at.
\<close>

definition greedy_step :: "real \<Rightarrow> real \<Rightarrow> state \<Rightarrow> Item \<Rightarrow> state" where
  "greedy_step d max_weight s item =
     (if np_gt (ratio item) (Fin d) \<and> weight item \<le> max_weight - accepted_weight s
      then \<lparr>accepted_weight = accepted_weight s + weight item,
            accepted_value = accepted_value s + value' item\<rparr>
      else s)"

definition greedy_run :: "Item list \<Rightarrow> real \<Rightarrow> real \<Rightarrow> state" where
  "greedy_run items d max_weight =
     foldl (greedy_step d max_weight) \<lparr>accepted_weight = 0, accepted_value = 0\<rparr> items"

section \<open>The notebook on the Python runtime\<close>

text \<open>
  The definitions above compute in exact arithmetic. The definitions of this section
  follow the same source text, with what the Python and numpy runtime adds: the dynamic
  types of the parameters, the exceptions of Python's own arithmetic, and the rounding
  of every floating-point operation. The runtime is a parameter: \<open>rnd\<close> is the double
  that a nonzero exact result within the double range is rounded to (it may be a zero,
  by underflow), \<open>exp_impl\<close> and \<open>log_impl\<close> are numpy's \<^verbatim>\<open>exp\<close> and \<^verbatim>\<open>log\<close> on
  finite arguments, and \<open>big_int\<close> is what numpy makes of a Python integer beyond
  \<open>2\<^sup>5\<^sup>3\<close> in an operation with one of its scalars. Nothing is assumed of them: a
  theorem that holds for every runtime holds for the one of the notebook.
\<close>

record runtime =
  rnd :: "real \<Rightarrow> npfloat"
  exp_impl :: "real \<Rightarrow> npfloat"
  log_impl :: "real \<Rightarrow> npfloat"
  big_int :: "int \<Rightarrow> error + npfloat"

text \<open>
  A result of magnitude \<open>2\<^sup>1\<^sup>0\<^sup>2\<^sup>4 - 2\<^sup>9\<^sup>7\<^sup>0\<close> or more rounds to an infinity. Results
  that are doubles whatever the operands are returned as they are: a sum with a zero, a
  product or a quotient with 1, the quotient of a number with itself.
\<close>

definition dbl_overflow :: "real \<Rightarrow> bool" where
  "dbl_overflow r \<longleftrightarrow> 2 ^ 1024 - 2 ^ 970 \<le> \<bar>r\<bar>"

definition round_fl :: "runtime \<Rightarrow> real \<Rightarrow> npfloat" where
  "round_fl rt r = (if dbl_overflow r then inf_of (r < 0) else rnd rt r)"

definition fl_add :: "runtime \<Rightarrow> npfloat \<Rightarrow> npfloat \<Rightarrow> npfloat" where
  "fl_add rt a b =
     (if is_nan a \<or> is_nan b then NaN
      else if is_inf a \<and> is_inf b then (if signbit a = signbit b then a else NaN)
      else if is_inf a then a
      else if is_inf b then b
      else if fin_val a + fin_val b = 0 then (if a = NegZero \<and> b = NegZero then NegZero else Fin 0)
      else if is_zero b then a
      else if is_zero a then b
      else round_fl rt (fin_val a + fin_val b))"

definition fl_sub :: "runtime \<Rightarrow> npfloat \<Rightarrow> npfloat \<Rightarrow> npfloat" where
  "fl_sub rt a b = fl_add rt a (np_neg b)"

definition fl_mul :: "runtime \<Rightarrow> npfloat \<Rightarrow> npfloat \<Rightarrow> npfloat" where
  "fl_mul rt a b =
     (if is_nan a \<or> is_nan b then NaN
      else if (is_inf a \<and> is_zero b) \<or> (is_zero a \<and> is_inf b) then NaN
      else if is_inf a \<or> is_inf b then inf_of (signbit a \<noteq> signbit b)
      else if is_zero a \<or> is_zero b then zero_of (signbit a \<noteq> signbit b)
      else if fin_val b = 1 then a
      else if fin_val a = 1 then b
      else round_fl rt (fin_val a * fin_val b))"

definition fl_div :: "runtime \<Rightarrow> npfloat \<Rightarrow> npfloat \<Rightarrow> npfloat" where
  "fl_div rt a b =
     (if is_nan a \<or> is_nan b then NaN
      else if (is_inf a \<and> is_inf b) \<or> (is_zero a \<and> is_zero b) then NaN
      else if is_inf a then inf_of (signbit a \<noteq> signbit b)
      else if is_inf b then zero_of (signbit a \<noteq> signbit b)
      else if is_zero b then inf_of (signbit a \<noteq> signbit b)
      else if is_zero a then zero_of (signbit a \<noteq> signbit b)
      else if fin_val b = 1 then a
      else if fin_val a = fin_val b then Fin 1
      else round_fl rt (fin_val a / fin_val b))"

fun fl_exp :: "runtime \<Rightarrow> npfloat \<Rightarrow> npfloat" where
  "fl_exp rt (Fin r) = (if r = 0 then Fin 1 else exp_impl rt r)"
| "fl_exp rt NegZero = Fin 1"
| "fl_exp rt PInf = PInf"
| "fl_exp rt NInf = Fin 0"
| "fl_exp rt NaN = NaN"

fun fl_log :: "runtime \<Rightarrow> npfloat \<Rightarrow> npfloat" where
  "fl_log rt (Fin r) =
     (if r = 1 then Fin 0 else if 0 < r then log_impl rt r else if r = 0 then NInf else NaN)"
| "fl_log rt NegZero = NInf"
| "fl_log rt PInf = PInf"
| "fl_log rt NInf = NaN"
| "fl_log rt NaN = NaN"

definition np_le :: "npfloat \<Rightarrow> npfloat \<Rightarrow> bool" where
  "np_le a b =
     (if is_nan a \<or> is_nan b then False
      else if a = NInf \<or> b = PInf then True
      else if a = PInf \<or> b = NInf then False
      else fin_val a \<le> fin_val b)"

text \<open>
  A parameter is a Python integer, a Python float or a numpy scalar. numpy takes a
  Python integer of magnitude at most \<open>2\<^sup>5\<^sup>3\<close> as the double of the same value;
  Python's conversion of an integer to a float raises \<^verbatim>\<open>OverflowError\<close> beyond the
  double range.
\<close>

datatype pynum = PyInt int | PyFloat npfloat | NpFloat npfloat

fun to_np :: "runtime \<Rightarrow> pynum \<Rightarrow> error + npfloat" where
  "to_np rt (PyInt n) = (if \<bar>n\<bar> \<le> 2 ^ 53 then Inr (Fin (of_int n)) else big_int rt n)"
| "to_np rt (PyFloat f) = Inr f"
| "to_np rt (NpFloat f) = Inr f"

fun to_float :: "runtime \<Rightarrow> pynum \<Rightarrow> error + npfloat" where
  "to_float rt (PyInt n) =
     (if dbl_overflow (of_int n) then Inl OverflowError
      else if \<bar>n\<bar> \<le> 2 ^ 53 then Inr (Fin (of_int n))
      else Inr (rnd rt (of_int n)))"
| "to_float rt (PyFloat f) = Inr f"
| "to_float rt (NpFloat f) = Inr f"

fun is_np :: "pynum \<Rightarrow> bool" where
  "is_np (NpFloat f) = True"
| "is_np _ = False"

text \<open>
  \<^verbatim>\<open>p_max / p_min\<close>: with a numpy scalar on either side the division is numpy's and
  raises nothing; between two Python integers it raises \<^verbatim>\<open>ZeroDivisionError\<close> on a
  zero divisor and \<^verbatim>\<open>OverflowError\<close> when the quotient is beyond the double range,
  and is the correctly rounded quotient otherwise; with a Python float on one side both
  operands are converted to floats first and a zero divisor raises
  \<^verbatim>\<open>ZeroDivisionError\<close>.
\<close>

definition py_truediv :: "runtime \<Rightarrow> pynum \<Rightarrow> pynum \<Rightarrow> error + npfloat" where
  "py_truediv rt a b =
     (if is_np a \<or> is_np b then
        (case to_np rt a of Inl e \<Rightarrow> Inl e
         | Inr x \<Rightarrow> (case to_np rt b of Inl e \<Rightarrow> Inl e | Inr y \<Rightarrow> Inr (fl_div rt x y)))
      else (case (a, b) of
          (PyInt m, PyInt n) \<Rightarrow>
            (if n = 0 then Inl ZeroDivisionError
             else if dbl_overflow (of_int m / of_int n) then Inl OverflowError
             else Inr (fl_div rt (Fin (of_int m)) (Fin (of_int n))))
        | _ \<Rightarrow>
            (case to_float rt a of Inl e \<Rightarrow> Inl e
             | Inr x \<Rightarrow> (case to_float rt b of Inl e \<Rightarrow> Inl e
                 | Inr y \<Rightarrow> if is_zero y then Inl ZeroDivisionError else Inr (fl_div rt x y)))))"

text \<open>An item whose three fields are numpy scalars, as the generator builds them.\<close>

datatype NpItem = NpItem (np_value: npfloat) (np_weight: npfloat) (np_ratio: npfloat)

text \<open>\<^verbatim>\<open>beta = max_weight / (1 + np.log(p_max / p_min))\<close>\<close>

definition compute_beta :: "runtime \<Rightarrow> pynum \<Rightarrow> pynum \<Rightarrow> pynum \<Rightarrow> error + npfloat" where
  "compute_beta rt p_min p_max max_weight =
     (case py_truediv rt p_max p_min of Inl e \<Rightarrow> Inl e
      | Inr q \<Rightarrow> (case to_np rt max_weight of Inl e \<Rightarrow> Inl e
          | Inr mw \<Rightarrow> Inr (fl_div rt mw (fl_add rt (Fin 1) (fl_log rt q)))))"

text \<open>
  The loop: \<^verbatim>\<open>threshold = p_min if y < beta else p_min * np.exp(y/beta-1)\<close>, then
  \<^verbatim>\<open>if item.ratio > threshold and y + item.weight <= max_weight\<close>. \<open>p_min\<close> meets a
  numpy scalar in the comparison or in the product, \<open>max_weight\<close> (converted as in
  \<open>beta\<close>) in the second comparison; the state \<open>(total_value, y)\<close> starts at the
  Python integer 0 on both sides, and the sums are rounded.
\<close>

definition threshold_fl :: "runtime \<Rightarrow> npfloat \<Rightarrow> npfloat \<Rightarrow> npfloat \<Rightarrow> npfloat" where
  "threshold_fl rt pm beta y =
     (if np_lt y beta then pm
      else fl_mul rt pm (fl_exp rt (fl_sub rt (fl_div rt y beta) (Fin 1))))"

fun online_loop_fl ::
  "runtime \<Rightarrow> pynum \<Rightarrow> npfloat \<Rightarrow> npfloat \<Rightarrow> NpItem list \<Rightarrow> npfloat \<times> npfloat
     \<Rightarrow> error + npfloat \<times> npfloat" where
  "online_loop_fl rt p_min mw beta [] (total_value, y) = Inr (total_value, y)"
| "online_loop_fl rt p_min mw beta (item # items) (total_value, y) =
     (case to_np rt p_min of Inl e \<Rightarrow> Inl e
      | Inr pm \<Rightarrow>
          if np_gt (np_ratio item) (threshold_fl rt pm beta y)
             \<and> np_le (fl_add rt y (np_weight item)) mw
          then online_loop_fl rt p_min mw beta items
                 (fl_add rt total_value (np_value item), fl_add rt y (np_weight item))
          else online_loop_fl rt p_min mw beta items (total_value, y))"

definition online_knapsack_fl ::
  "runtime \<Rightarrow> NpItem list \<Rightarrow> pynum \<Rightarrow> pynum \<Rightarrow> pynum \<Rightarrow> error + npfloat" where
  "online_knapsack_fl rt items p_min p_max max_weight =
     (case compute_beta rt p_min p_max max_weight of Inl e \<Rightarrow> Inl e
      | Inr beta \<Rightarrow>
         (case to_np rt max_weight of Inl e \<Rightarrow> Inl e
          | Inr mw \<Rightarrow>
             (case online_loop_fl rt p_min mw beta items (Fin 0, Fin 0) of Inl e \<Rightarrow> Inl e
              | Inr s \<Rightarrow> Inr (fst s))))"

text \<open>
  The number a parameter stands for, and the parameters that every operation of the
  notebook takes exactly: floats, numpy scalars, and integers within \<open>2\<^sup>5\<^sup>3\<close>.
\<close>

fun num_val :: "pynum \<Rightarrow> npfloat" where
  "num_val (PyInt n) = Fin (of_int n)"
| "num_val (PyFloat f) = f"
| "num_val (NpFloat f) = f"

fun float_like :: "pynum \<Rightarrow> bool" where
  "float_like (PyInt n) = (\<bar>n\<bar> \<le> 2 ^ 53)"
| "float_like _ = True"

text \<open>Python raises on a division by zero when both operands are Python numbers.\<close>

definition python_zero_division :: "pynum \<Rightarrow> pynum \<Rightarrow> bool" where
  "python_zero_division a b \<longleftrightarrow> \<not> is_np a \<and> \<not> is_np b \<and> is_zero (num_val b)"

text \<open>
  One trial of \<^verbatim>\<open>test\<close> with \<^verbatim>\<open>adverserial=False\<close>, on the arrays that the random
  source returns: the items, then
  \<^verbatim>\<open>offline = -offline_knapsack(items, max_weight)\<close>, then
  \<^verbatim>\<open>online = online_knapsack(items, p_min, p_max, max_weight)\<close>. The solver is a
  parameter that returns \<^verbatim>\<open>result.fun\<close> or raises.
\<close>

definition gen_items_fl :: "runtime \<Rightarrow> npfloat list \<Rightarrow> npfloat list \<Rightarrow> NpItem list" where
  "gen_items_fl rt weights densities =
     (let values = map2 (fl_mul rt) densities weights
      in map (\<lambda>(v, w). NpItem v w (fl_div rt v w)) (zip values weights))"

type_synonym linprog_fl =
  "npfloat list \<Rightarrow> npfloat list list \<Rightarrow> pynum list \<Rightarrow> (int \<times> int) list \<Rightarrow> string
     \<Rightarrow> error + npfloat"

definition offline_knapsack_fl :: "linprog_fl \<Rightarrow> NpItem list \<Rightarrow> pynum \<Rightarrow> error + npfloat" where
  "offline_knapsack_fl linprog items max_weight =
     (let objective = map (\<lambda>item. np_neg (np_value item)) items;
          constraints = [map np_weight items];
          b_ub = [max_weight];
          bounds = replicate (length items) (0, 1)
      in linprog objective constraints b_ub bounds ''HiGHS'')"

definition test_trial ::
  "runtime \<Rightarrow> linprog_fl \<Rightarrow> npfloat list \<Rightarrow> npfloat list \<Rightarrow> pynum \<Rightarrow> pynum \<Rightarrow> pynum
     \<Rightarrow> error + npfloat \<times> npfloat" where
  "test_trial rt linprog weights densities max_weight p_min p_max =
     (let items = gen_items_fl rt weights densities
      in case offline_knapsack_fl linprog items max_weight of Inl e \<Rightarrow> Inl e
         | Inr f \<Rightarrow>
            (case online_knapsack_fl rt items p_min p_max max_weight of Inl e \<Rightarrow> Inl e
             | Inr online \<Rightarrow> Inr (np_neg f, online)))"

text \<open>A stand-in solver that answers the same whatever the problem.\<close>

definition fixed_linprog_fl :: "error + npfloat \<Rightarrow> linprog_fl" where
  "fixed_linprog_fl answer c A_ub b_ub bounds method = answer"

text \<open>A float that is neither an infinity nor \<^verbatim>\<open>nan\<close>.\<close>

definition is_finite :: "npfloat \<Rightarrow> bool" where
  "is_finite f \<longleftrightarrow> \<not> is_nan f \<and> \<not> is_inf f"

text \<open>
  The algorithm as the specification words it, on floats: the state is the accepted
  weight and the accepted value, both 0 at the start; each step computes
  \<open>alpha = 1 + ln (p_max / p_min)\<close>, \<open>beta = max_weight / alpha\<close> and the threshold, and
  accepts the item in full iff its ratio exceeds the threshold and the accepted weight
  plus its weight is at most \<open>max_weight\<close>.
\<close>

record fl_state =
  fl_accepted_weight :: npfloat
  fl_accepted_value :: npfloat

definition spec_step_fl ::
  "runtime \<Rightarrow> npfloat \<Rightarrow> npfloat \<Rightarrow> npfloat \<Rightarrow> fl_state \<Rightarrow> NpItem \<Rightarrow> fl_state" where
  "spec_step_fl rt p_min p_max max_weight s item =
     (let alpha = fl_add rt (Fin 1) (fl_log rt (fl_div rt p_max p_min));
          beta = fl_div rt max_weight alpha;
          t = (if np_lt (fl_accepted_weight s) beta then p_min
               else fl_mul rt p_min
                      (fl_exp rt (fl_sub rt (fl_div rt (fl_accepted_weight s) beta) (Fin 1))))
      in if np_gt (np_ratio item) t
            \<and> np_le (fl_add rt (fl_accepted_weight s) (np_weight item)) max_weight
         then \<lparr>fl_accepted_weight = fl_add rt (fl_accepted_weight s) (np_weight item),
               fl_accepted_value = fl_add rt (fl_accepted_value s) (np_value item)\<rparr>
         else s)"

definition spec_run_fl ::
  "runtime \<Rightarrow> NpItem list \<Rightarrow> npfloat \<Rightarrow> npfloat \<Rightarrow> npfloat \<Rightarrow> fl_state" where
  "spec_run_fl rt items p_min p_max max_weight =
     foldl (spec_step_fl rt p_min p_max max_weight)
       \<lparr>fl_accepted_weight = Fin 0, fl_accepted_value = Fin 0\<rparr> items"

text \<open>
  The fixed-threshold greedy on floats: in arrival order, an item is accepted iff its
  ratio is above \<open>d\<close> and the accepted weight plus its weight does not exceed
  \<open>max_weight\<close>; an item that does not fit is skipped and the later items are still
  looked at.
\<close>

definition greedy_step_fl :: "runtime \<Rightarrow> npfloat \<Rightarrow> npfloat \<Rightarrow> fl_state \<Rightarrow> NpItem \<Rightarrow> fl_state" where
  "greedy_step_fl rt d mw s item =
     (if np_gt (np_ratio item) d \<and> np_le (fl_add rt (fl_accepted_weight s) (np_weight item)) mw
      then \<lparr>fl_accepted_weight = fl_add rt (fl_accepted_weight s) (np_weight item),
            fl_accepted_value = fl_add rt (fl_accepted_value s) (np_value item)\<rparr>
      else s)"

definition greedy_run_fl :: "runtime \<Rightarrow> NpItem list \<Rightarrow> npfloat \<Rightarrow> npfloat \<Rightarrow> fl_state" where
  "greedy_run_fl rt items d mw =
     foldl (greedy_step_fl rt d mw) \<lparr>fl_accepted_weight = Fin 0, fl_accepted_value = Fin 0\<rparr> items"

section \<open>Arithmetic on finite numbers\<close>

text \<open>On finite numbers the operations of the notebook are those of the reals.\<close>

lemma np_div_Fin:
  "0 < b \<Longrightarrow> np_div (Fin a) (Fin b) = Fin (a / b)"
  by (simp add: np_div_def zero_of_def)

lemma np_sub_Fin_1: "np_sub (Fin a) (Fin 1) = Fin (a - 1)"
  by (simp add: np_sub_def np_add_def)

lemma np_mul_Fin_pos:
  "0 < b \<Longrightarrow> np_mul (Fin a) (Fin b) = Fin (a * b)"
  by (simp add: np_mul_def zero_of_def)

lemma np_lt_Fin: "np_lt (Fin a) (Fin b) = (a < b)"
  by (simp add: np_lt_def)

lemma alpha_ge_1:
  assumes "0 < (p_min::real)" and "p_min \<le> p_max"
  shows "1 \<le> 1 + ln (p_max / p_min)"
proof -
  have "1 \<le> p_max / p_min" using assms by (simp add: le_divide_eq_1_pos)
  then have "0 \<le> ln (p_max / p_min)" by simp
  then show ?thesis by simp
qed

lemma beta_of_valid:
  assumes "0 < p_min" and "p_min \<le> p_max" and "0 \<le> max_weight"
  shows "beta_of p_min p_max max_weight = Fin (max_weight / (1 + ln (p_max / p_min)))"
proof -
  have r: "0 < p_max / p_min" using assms by simp
  have a: "0 < 1 + ln (p_max / p_min)" using alpha_ge_1 [OF assms(1,2)] by linarith
  have "np_add (Fin 1) (np_log (Fin (p_max / p_min))) = Fin (1 + ln (p_max / p_min))"
    using r by (simp add: np_add_def)
  then show ?thesis using a by (simp add: beta_of_def np_div_Fin)
qed

lemma threshold_Fin:
  assumes "0 < b"
  shows "threshold p_min (Fin b) y = Fin (if y < b then p_min else p_min * exp (y / b - 1))"
  using assms by (simp add: threshold_def np_lt_Fin np_div_Fin np_sub_Fin_1 np_mul_Fin_pos)

lemma threshold_valid:
  assumes "0 < p_min" and "p_min \<le> p_max" and "0 < max_weight"
  shows "threshold p_min (beta_of p_min p_max max_weight) y
           = Fin (spec_threshold p_min p_max max_weight y)"
proof -
  have a: "0 < 1 + ln (p_max / p_min)" using alpha_ge_1 [OF assms(1,2)] by linarith
  then have b: "0 < max_weight / (1 + ln (p_max / p_min))" using assms(3) by simp
  show ?thesis
    using assms beta_of_valid [of p_min p_max max_weight] threshold_Fin [OF b]
    by (simp add: spec_threshold_def Let_def)
qed

lemma np_div_cancel:
  "0 \<le> w \<Longrightarrow> np_div (Fin (d * w)) (Fin w) = (if w = 0 then NaN else Fin d)"
  by (simp add: np_div_def zero_of_def)

section \<open>The loop of the online algorithm\<close>

text \<open>
  The loop is one pass from left to right: the state after the first \<open>k\<close> items is the
  result of the loop on \<open>take k items\<close>, and the run continues from it.
\<close>

lemma online_loop_append:
  "online_loop p_min max_weight beta (xs @ ys) s
     = online_loop p_min max_weight beta ys (online_loop p_min max_weight beta xs s)"
proof (induction xs arbitrary: s)
  case Nil
  show ?case by (cases s) simp
next
  case (Cons item xs)
  show ?case by (cases s) (simp add: Cons.IH)
qed

lemma online_loop_capacity:
  "snd s \<le> max_weight \<Longrightarrow> snd (online_loop p_min max_weight beta items s) \<le> max_weight"
proof (induction items arbitrary: s)
  case Nil
  then show ?case by (cases s) simp
next
  case (Cons item items)
  obtain tv y where s: "s = (tv, y)" by (cases s)
  show ?case
  proof (cases "np_gt (ratio item) (threshold p_min beta y) \<and> y + weight item \<le> max_weight")
    case True
    then show ?thesis using Cons.IH [of "(tv + value' item, y + weight item)"] s by simp
  next
    case False
    then show ?thesis using Cons.IH [of "(tv, y)"] Cons.prems s by auto
  qed
qed

lemma spec_step_threshold:
  "spec_step p_min p_max max_weight s item =
     (if np_gt (ratio item) (threshold p_min (beta_of p_min p_max max_weight) (accepted_weight s))
         \<and> accepted_weight s + weight item \<le> max_weight
      then \<lparr>accepted_weight = accepted_weight s + weight item,
            accepted_value = accepted_value s + value' item\<rparr>
      else s)"
  by (simp only: spec_step_def threshold_def beta_of_def Let_def)

lemma spec_step_loop:
  "online_loop p_min max_weight (beta_of p_min p_max max_weight) items
       (accepted_value s, accepted_weight s)
     = (accepted_value (foldl (spec_step p_min p_max max_weight) s items),
        accepted_weight (foldl (spec_step p_min p_max max_weight) s items))"
proof (induction items arbitrary: s)
  case Nil
  show ?case by simp
next
  case (Cons item items)
  let ?s' = "spec_step p_min p_max max_weight s item"
  have "online_loop p_min max_weight (beta_of p_min p_max max_weight) (item # items)
          (accepted_value s, accepted_weight s)
        = online_loop p_min max_weight (beta_of p_min p_max max_weight) items
            (accepted_value ?s', accepted_weight ?s')"
    by (simp add: spec_step_threshold)
  also have "\<dots> = (accepted_value (foldl (spec_step p_min p_max max_weight) ?s' items),
        accepted_weight (foldl (spec_step p_min p_max max_weight) ?s' items))"
    by (rule Cons.IH)
  finally show ?case by simp
qed

lemma beta_of_degenerate:
  assumes "0 < d" and "0 \<le> max_weight"
  shows "beta_of d d max_weight = Fin max_weight"
  using beta_of_valid [of d d max_weight] assms by simp

lemma threshold_degenerate:
  assumes "0 < max_weight" and "y \<le> max_weight"
  shows "threshold d (Fin max_weight) y = Fin d"
  using assms threshold_Fin [OF assms(1), of d y] by (cases "y = max_weight") simp_all

lemma greedy_step_loop:
  assumes "0 < max_weight" and "accepted_weight s \<le> max_weight"
  shows "online_loop d max_weight (Fin max_weight) items (accepted_value s, accepted_weight s)
     = (accepted_value (foldl (greedy_step d max_weight) s items),
        accepted_weight (foldl (greedy_step d max_weight) s items))"
  using assms(2)
proof (induction items arbitrary: s)
  case Nil
  show ?case by simp
next
  case (Cons item items)
  let ?s' = "greedy_step d max_weight s item"
  have t: "threshold d (Fin max_weight) (accepted_weight s) = Fin d"
    using threshold_degenerate [OF assms(1) Cons.prems] .
  have fits: "(weight item \<le> max_weight - accepted_weight s)
                = (accepted_weight s + weight item \<le> max_weight)" by linarith
  have inv: "accepted_weight ?s' \<le> max_weight"
    using Cons.prems by (simp add: greedy_step_def)
  have "online_loop d max_weight (Fin max_weight) (item # items)
          (accepted_value s, accepted_weight s)
        = online_loop d max_weight (Fin max_weight) items
            (accepted_value ?s', accepted_weight ?s')"
    by (simp add: greedy_step_def t fits)
  also have "\<dots> = (accepted_value (foldl (greedy_step d max_weight) ?s' items),
        accepted_weight (foldl (greedy_step d max_weight) ?s' items))"
    using Cons.IH [OF inv] .
  finally show ?case by simp
qed

lemma ln5: "ln (5::real) < 7/3"
proof -
  have "(5::real) < 1 + 7/3 + (7/3)\<^sup>2 / 2" by (simp add: power2_eq_square)
  also have "\<dots> \<le> exp (7/3)" by (rule exp_lower_Taylor_quadratic) simp
  finally have "exp (ln 5) < exp (7/3 :: real)" by simp
  then show ?thesis by (simp only: exp_less_cancel_iff)
qed

lemma beta_1_5_1: "beta_of 1 5 1 = Fin (1 / (1 + ln 5))"
  using beta_of_valid [of 1 5 1] by simp

lemma beta_1_5_1_gt: "3/10 < 1 / (1 + ln (5::real))"
proof -
  have "0 < ln (5::real)" by simp
  then have "0 < 1 + ln (5::real)" by linarith
  moreover have "3/10 * (1 + ln (5::real)) < 1" using ln5 by simp
  ultimately show ?thesis by (simp add: pos_less_divide_eq)
qed

lemma threshold_1_5_1:
  assumes "y \<le> 3/10"
  shows "threshold 1 (beta_of 1 5 1) y = Fin 1"
proof -
  have b: "0 < 1 / (1 + ln (5::real))" using beta_1_5_1_gt by linarith
  have "y < 1 / (1 + ln (5::real))" using assms beta_1_5_1_gt by linarith
  then show ?thesis using threshold_Fin [OF b, of 1 y] by (simp add: beta_1_5_1)
qed

section \<open>The linear program\<close>

lemma dot_Nil [simp]: "dot [] x = 0" "dot c [] = 0"
  by (simp_all add: dot_def)

lemma dot_Cons [simp]: "dot (a # c) (b # x) = a * b + dot c x"
  by (simp add: dot_def)

lemma dot_map_uminus: "dot (map (\<lambda>item. - f item) items) x = - dot (map f items) x"
proof (induction items arbitrary: x)
  case Nil
  show ?case by simp
next
  case (Cons item items)
  show ?case by (cases x) (simp_all add: Cons.IH)
qed

lemma dot_replicate_0: "dot c (replicate n 0) = 0"
proof (induction c arbitrary: n)
  case Nil
  show ?case by simp
next
  case (Cons a c)
  show ?case by (cases n) (simp_all add: Cons.IH)
qed

lemma bounds_replicate:
  "list_all2 (\<lambda>(lo, hi) xi. lo \<le> xi \<and> xi \<le> hi) (replicate n (0, 1)) x
     \<longleftrightarrow> length x = n \<and> (\<forall>xi \<in> set x. (0::real) \<le> xi \<and> xi \<le> 1)"
  by (auto simp: list_all2_conv_all_nth all_set_conv_all_nth)

lemma lp_feasible_knapsack:
  "lp_feasible [map weight items] [max_weight] (replicate (length items) (0, 1)) x
     \<longleftrightarrow> knapsack_feasible items max_weight x"
  by (auto simp: lp_feasible_def knapsack_feasible_def bounds_replicate)

lemma offline_knapsack_neg_maximum:
  assumes "linprog_solves linprog items max_weight"
  shows "knapsack_maximum items max_weight (- offline_knapsack linprog items max_weight)"
proof -
  define r where "r = linprog (map (\<lambda>item. - value' item) items) [map weight items] [max_weight]
          (replicate (length items) (0, 1)) ''HiGHS''"
  have off: "offline_knapsack linprog items max_weight = fun' r"
    by (simp add: offline_knapsack_def Let_def r_def)
  have sol: "lp_optimal (map (\<lambda>item. - value' item) items) [map weight items] [max_weight]
       (replicate (length items) (0, 1)) r"
    using assms by (simp add: linprog_solves_def r_def)
  have feas: "knapsack_feasible items max_weight (x' r)"
    using sol by (simp add: lp_optimal_def lp_feasible_knapsack)
  have val: "knapsack_value items (x' r) = - fun' r"
    using sol by (simp add: lp_optimal_def dot_map_uminus knapsack_value_def)
  have opt: "knapsack_value items x \<le> - fun' r" if "knapsack_feasible items max_weight x" for x
  proof -
    have "fun' r \<le> dot (map (\<lambda>item. - value' item) items) x"
      using sol that unfolding lp_optimal_def lp_feasible_knapsack by blast
    then show ?thesis by (simp add: dot_map_uminus knapsack_value_def)
  qed
  show ?thesis unfolding knapsack_maximum_def off using feas val opt by blast
qed

lemma online_loop_selection:
  "\<exists>x. length x = length items \<and> (\<forall>xi \<in> set x. xi = 0 \<or> xi = 1)
     \<and> online_loop p_min max_weight beta items (tv, y)
         = (tv + dot (map value' items) x, y + dot (map weight items) x)"
proof (induction items arbitrary: tv y)
  case Nil
  show ?case by simp
next
  case (Cons item items)
  show ?case
  proof (cases "np_gt (ratio item) (threshold p_min beta y) \<and> y + weight item \<le> max_weight")
    case True
    obtain x where x: "length x = length items" "\<forall>xi \<in> set x. xi = 0 \<or> xi = 1"
      "online_loop p_min max_weight beta items (tv + value' item, y + weight item)
         = (tv + value' item + dot (map value' items) x, y + weight item + dot (map weight items) x)"
      using Cons.IH [of "tv + value' item" "y + weight item"] by blast
    have "length (1 # x) = length (item # items) \<and> (\<forall>xi \<in> set (1 # x). xi = 0 \<or> xi = 1)
      \<and> online_loop p_min max_weight beta (item # items) (tv, y)
         = (tv + dot (map value' (item # items)) (1 # x), y + dot (map weight (item # items)) (1 # x))"
      using True x by (simp add: algebra_simps)
    then show ?thesis by blast
  next
    case False
    obtain x where x: "length x = length items" "\<forall>xi \<in> set x. xi = 0 \<or> xi = 1"
      "online_loop p_min max_weight beta items (tv, y)
         = (tv + dot (map value' items) x, y + dot (map weight items) x)"
      using Cons.IH [of tv y] by blast
    have "length (0 # x) = length (item # items) \<and> (\<forall>xi \<in> set (0 # x). xi = 0 \<or> xi = 1)
      \<and> online_loop p_min max_weight beta (item # items) (tv, y)
         = (tv + dot (map value' (item # items)) (0 # x), y + dot (map weight (item # items)) (0 # x))"
      using False x by auto
    then show ?thesis by blast
  qed
qed

lemma online_loop_feasible:
  assumes "0 \<le> max_weight"
  shows "\<exists>x. knapsack_feasible items max_weight x
     \<and> fst (online_loop p_min max_weight beta items (0, 0)) = knapsack_value items x"
proof -
  obtain x where x: "length x = length items" "\<forall>xi \<in> set x. xi = 0 \<or> xi = 1"
      "online_loop p_min max_weight beta items (0, 0)
         = (0 + dot (map value' items) x, 0 + dot (map weight items) x)"
    using online_loop_selection [of items p_min max_weight beta 0 0] by blast
  have "snd (online_loop p_min max_weight beta items (0, 0)) \<le> max_weight"
    using assms by (intro online_loop_capacity) simp
  then have "dot (map weight items) x \<le> max_weight" using x(3) by simp
  moreover have "\<forall>xi \<in> set x. 0 \<le> xi \<and> xi \<le> 1" using x(2) by auto
  ultimately have "knapsack_feasible items max_weight x"
    using x(1) by (simp add: knapsack_feasible_def)
  then show ?thesis using x(3) by (auto simp: knapsack_value_def)
qed

lemma unit_instance_solved:
  "linprog_solves (fixed_linprog (OptimizeResult [1] (- 2))) [Item 2 1 (Fin 2)] 1"
proof -
  have "- 2 \<le> dot [- 2] x" if "lp_feasible [[1]] [1] [(0, 1)] x" for x
  proof -
    from that have "length x = 1" by (simp add: lp_feasible_def)
    then obtain x0 where x: "x = [x0]" by (cases x) simp_all
    from that show ?thesis unfolding x by (simp add: lp_feasible_def)
  qed
  then show ?thesis
    by (simp add: linprog_solves_def lp_optimal_def fixed_linprog_def lp_feasible_def)
qed

lemma pair_instance_solved:
  "linprog_solves (fixed_linprog (OptimizeResult [0, 1] (- 4)))
     [Item 3 1 (Fin 3), Item 4 1 (Fin 4)] 1"
proof -
  have "- 4 \<le> dot [- 3, - 4] x" if "lp_feasible [[1, 1]] [1] [(0, 1), (0, 1)] x" for x
  proof -
    from that have "length x = Suc (Suc 0)" by (simp add: lp_feasible_def)
    then obtain x0 x1 where x: "x = [x0, x1]"
      by (cases x; cases "tl x") simp_all
    from that show ?thesis unfolding x by (simp add: lp_feasible_def)
  qed
  then show ?thesis
    by (simp add: linprog_solves_def lp_optimal_def fixed_linprog_def lp_feasible_def)
qed

section \<open>The generator\<close>

lemma gen_items_nth:
  assumes "length weights = length densities" and "i < length weights"
  shows "gen_items weights densities ! i
     = Item (densities ! i * weights ! i) (weights ! i)
         (np_div (Fin (densities ! i * weights ! i)) (Fin (weights ! i)))"
  using assms by (simp add: gen_items_def)

section \<open>Parameters that convert exactly\<close>

lemma small_no_overflow:
  assumes "\<bar>m\<bar> \<le> (2::int) ^ 53" and "n \<noteq> 0"
  shows "\<not> dbl_overflow (of_int m / of_int n)"
proof -
  have n1: "1 \<le> \<bar>real_of_int n\<bar>" using assms(2) by linarith
  have "\<bar>real_of_int m / real_of_int n\<bar> = \<bar>real_of_int m\<bar> / \<bar>real_of_int n\<bar>" by simp
  also have "\<dots> \<le> \<bar>real_of_int m\<bar> / 1"
    using n1 by (intro divide_left_mono) simp_all
  also have "\<dots> \<le> 2 ^ 53"
  proof -
    have "real_of_int \<bar>m\<bar> \<le> real_of_int (2 ^ 53)" using assms(1) by (rule of_int_le_iff [THEN iffD2])
    then show ?thesis by simp
  qed
  finally have "\<bar>real_of_int m / real_of_int n\<bar> \<le> 2 ^ 53" .
  moreover have "(2::real) ^ 53 < 2 ^ 1024 - 2 ^ 970" by simp
  ultimately show ?thesis by (simp add: dbl_overflow_def)
qed

lemma to_np_float_like: "float_like p \<Longrightarrow> to_np rt p = Inr (num_val p)"
  by (cases p) simp_all

lemma to_float_float_like: "float_like p \<Longrightarrow> to_float rt p = Inr (num_val p)"
proof (cases p)
  case (PyInt n)
  assume "float_like p"
  then have n: "\<bar>n\<bar> \<le> 2 ^ 53" using PyInt by simp
  have "\<not> dbl_overflow (of_int n / of_int 1)" using n by (intro small_no_overflow) simp_all
  then show ?thesis using PyInt n by simp
qed simp_all

lemma py_truediv_float_like:
  assumes "float_like a" and "float_like b"
  shows "py_truediv rt a b =
     (if python_zero_division a b then Inl ZeroDivisionError
      else Inr (fl_div rt (num_val a) (num_val b)))"
proof (cases "is_np a \<or> is_np b")
  case True
  then show ?thesis
    using assms by (auto simp: py_truediv_def python_zero_division_def to_np_float_like)
next
  case False
  show ?thesis
  proof (cases a)
    case a: (PyInt m)
    show ?thesis
    proof (cases b)
      case b: (PyInt n)
      show ?thesis
        using assms a b small_no_overflow [of m n]
        by (simp add: py_truediv_def python_zero_division_def)
    next
      case b: (PyFloat g)
      show ?thesis
        using assms a b to_float_float_like [of a rt]
        by (simp add: py_truediv_def python_zero_division_def)
    next
      case (NpFloat g)
      then show ?thesis using False by simp
    qed
  next
    case a: (PyFloat f)
    show ?thesis
    proof (cases b)
      case b: (PyInt n)
      show ?thesis
        using assms a b to_float_float_like [of b rt]
        by (simp add: py_truediv_def python_zero_division_def)
    next
      case b: (PyFloat g)
      show ?thesis using a b by (simp add: py_truediv_def python_zero_division_def)
    next
      case (NpFloat g)
      then show ?thesis using False by simp
    qed
  next
    case (NpFloat f)
    then show ?thesis using False by simp
  qed
qed

lemma online_loop_fl_returns:
  assumes "float_like p_min"
  shows "\<exists>s. online_loop_fl rt p_min mw beta items st = Inr s"
proof (induction items arbitrary: st)
  case Nil
  show ?case by (cases st) simp
next
  case (Cons item items)
  obtain tv y where st: "st = (tv, y)" by (cases st)
  show ?case
    unfolding st using Cons.IH to_np_float_like [OF assms, of rt] by simp
qed

lemma compute_beta_float_like:
  assumes "float_like p_min" and "float_like p_max" and "float_like max_weight"
  shows "compute_beta rt p_min p_max max_weight =
     (if python_zero_division p_max p_min then Inl ZeroDivisionError
      else Inr (fl_div rt (num_val max_weight)
                  (fl_add rt (Fin 1) (fl_log rt (fl_div rt (num_val p_max) (num_val p_min))))))"
  using assms
  by (simp add: compute_beta_def py_truediv_float_like to_np_float_like)

lemma online_knapsack_fl_float_like:
  assumes "float_like p_min" and "float_like p_max" and "float_like max_weight"
  shows "online_knapsack_fl rt items p_min p_max max_weight =
     (if python_zero_division p_max p_min then Inl ZeroDivisionError
      else Inr (fst (projr (online_loop_fl rt p_min (num_val max_weight)
         (fl_div rt (num_val max_weight)
            (fl_add rt (Fin 1) (fl_log rt (fl_div rt (num_val p_max) (num_val p_min)))))
         items (Fin 0, Fin 0)))))"
proof -
  obtain s where s: "online_loop_fl rt p_min (num_val max_weight)
         (fl_div rt (num_val max_weight)
            (fl_add rt (Fin 1) (fl_log rt (fl_div rt (num_val p_max) (num_val p_min)))))
         items (Fin 0, Fin 0) = Inr s"
    using online_loop_fl_returns [OF assms(1)] by blast
  show ?thesis
    using assms s
    by (simp add: online_knapsack_fl_def compute_beta_float_like to_np_float_like)
qed

lemma positive_not_zero_division:
  assumes "np_lt (Fin 0) (num_val p_min)"
  shows "\<not> python_zero_division p_max p_min"
proof -
  have "\<not> is_zero (num_val p_min)"
    using assms by (cases "num_val p_min") (simp_all add: np_lt_def)
  then show ?thesis by (simp add: python_zero_division_def)
qed


lemma online_knapsack_fl_raises_or_returns:
  assumes "float_like p_min" and "float_like p_max" and "float_like max_weight"
  shows "(python_zero_division p_max p_min \<longrightarrow>
            online_knapsack_fl rt items p_min p_max max_weight = Inl ZeroDivisionError)
       \<and> (\<not> python_zero_division p_max p_min \<longrightarrow>
            (\<exists>v. online_knapsack_fl rt items p_min p_max max_weight = Inr v))"
  using online_knapsack_fl_float_like [OF assms, of rt items]
  by (cases "python_zero_division p_max p_min") simp_all


section \<open>The loop on the runtime\<close>

lemma positive_finite_cases:
  assumes "is_finite f" and "np_lt (Fin 0) f"
  obtains r where "f = Fin r" and "0 < r"
  using assms by (cases f) (simp_all add: is_finite_def np_lt_def)

lemma fl_div_self:
  assumes "0 < r"
  shows "fl_div rt (Fin r) (Fin r) = Fin 1"
  using assms by (simp add: fl_div_def)

lemma fl_div_one:
  assumes "0 < r"
  shows "fl_div rt (Fin r) (Fin 1) = Fin r"
  using assms by (simp add: fl_div_def)

lemma alpha_degenerate: "fl_add rt (Fin 1) (fl_log rt (Fin 1)) = Fin 1"
  by (simp add: fl_add_def)

lemma threshold_fl_degenerate:
  assumes "0 < m" and "0 < d" and "np_le y (Fin m)"
  shows "threshold_fl rt (Fin d) (Fin m) y = Fin d"
proof (cases "np_lt y (Fin m)")
  case True
  then show ?thesis by (simp add: threshold_fl_def)
next
  case False
  have y: "y = Fin m"
    using assms(1,3) False by (cases y) (simp_all add: np_le_def np_lt_def split: if_splits)
  have "fl_sub rt (fl_div rt (Fin m) (Fin m)) (Fin 1) = Fin 0"
    using assms(1) by (simp add: fl_div_self fl_sub_def fl_add_def)
  moreover have "fl_mul rt (Fin d) (Fin 1) = Fin d"
    using assms(2) by (simp add: fl_mul_def)
  ultimately show ?thesis using False y by (simp add: threshold_fl_def)
qed

lemma online_loop_fl_capacity:
  assumes "np_le (snd st) mw" and "online_loop_fl rt p_min mw beta items st = Inr s"
  shows "np_le (snd s) mw"
  using assms
proof (induction items arbitrary: st)
  case Nil
  then show ?case by (cases st) auto
next
  case (Cons item items)
  obtain tv y where st: "st = (tv, y)" by (cases st)
  from Cons.prems(2) obtain pm where pm: "to_np rt p_min = Inr pm"
    unfolding st by (cases "to_np rt p_min") simp_all
  show ?case
  proof (cases "np_gt (np_ratio item) (threshold_fl rt pm beta y)
             \<and> np_le (fl_add rt y (np_weight item)) mw")
    case True
    then have "online_loop_fl rt p_min mw beta items
                 (fl_add rt tv (np_value item), fl_add rt y (np_weight item)) = Inr s"
      using Cons.prems(2) pm unfolding st by simp
    then show ?thesis using Cons.IH [of "(fl_add rt tv (np_value item), fl_add rt y (np_weight item))"] True
      by simp
  next
    case False
    then have "online_loop_fl rt p_min mw beta items (tv, y) = Inr s"
      using Cons.prems(2) pm unfolding st by auto
    then show ?thesis using Cons.IH [of "(tv, y)"] Cons.prems(1) st by simp
  qed
qed

lemma greedy_step_fl_loop:
  assumes "0 < m" and "0 < d" and "to_np rt p_min = Inr (Fin d)"
    and "np_le (fl_accepted_weight s) (Fin m)"
  shows "online_loop_fl rt p_min (Fin m) (Fin m) items (fl_accepted_value s, fl_accepted_weight s)
     = Inr (fl_accepted_value (foldl (greedy_step_fl rt (Fin d) (Fin m)) s items),
            fl_accepted_weight (foldl (greedy_step_fl rt (Fin d) (Fin m)) s items))"
  using assms(4)
proof (induction items arbitrary: s)
  case Nil
  show ?case by simp
next
  case (Cons item items)
  let ?s' = "greedy_step_fl rt (Fin d) (Fin m) s item"
  have t: "threshold_fl rt (Fin d) (Fin m) (fl_accepted_weight s) = Fin d"
    using threshold_fl_degenerate [OF assms(1,2) Cons.prems] .
  have inv: "np_le (fl_accepted_weight ?s') (Fin m)"
    using Cons.prems by (simp add: greedy_step_fl_def)
  have "online_loop_fl rt p_min (Fin m) (Fin m) (item # items)
          (fl_accepted_value s, fl_accepted_weight s)
        = online_loop_fl rt p_min (Fin m) (Fin m) items
            (fl_accepted_value ?s', fl_accepted_weight ?s')"
    by (simp add: assms(3) greedy_step_fl_def t)
  also have "\<dots> = Inr (fl_accepted_value (foldl (greedy_step_fl rt (Fin d) (Fin m)) ?s' items),
        fl_accepted_weight (foldl (greedy_step_fl rt (Fin d) (Fin m)) ?s' items))"
    using Cons.IH [OF inv] .
  finally show ?case by simp
qed

lemma spec_step_fl_loop:
  assumes "to_np rt p_min = Inr pm"
  shows "online_loop_fl rt p_min mw
           (fl_div rt mw (fl_add rt (Fin 1) (fl_log rt (fl_div rt pmax pm)))) items
           (fl_accepted_value s, fl_accepted_weight s)
     = Inr (fl_accepted_value (foldl (spec_step_fl rt pm pmax mw) s items),
            fl_accepted_weight (foldl (spec_step_fl rt pm pmax mw) s items))"
proof (induction items arbitrary: s)
  case Nil
  show ?case by simp
next
  case (Cons item items)
  let ?beta = "fl_div rt mw (fl_add rt (Fin 1) (fl_log rt (fl_div rt pmax pm)))"
  let ?s' = "spec_step_fl rt pm pmax mw s item"
  have step: "?s' =
     (if np_gt (np_ratio item) (threshold_fl rt pm ?beta (fl_accepted_weight s))
         \<and> np_le (fl_add rt (fl_accepted_weight s) (np_weight item)) mw
      then \<lparr>fl_accepted_weight = fl_add rt (fl_accepted_weight s) (np_weight item),
            fl_accepted_value = fl_add rt (fl_accepted_value s) (np_value item)\<rparr>
      else s)"
    by (simp only: spec_step_fl_def threshold_fl_def Let_def)
  have "online_loop_fl rt p_min mw ?beta (item # items) (fl_accepted_value s, fl_accepted_weight s)
        = online_loop_fl rt p_min mw ?beta items (fl_accepted_value ?s', fl_accepted_weight ?s')"
    by (simp add: assms step)
  also have "\<dots> = Inr (fl_accepted_value (foldl (spec_step_fl rt pm pmax mw) ?s' items),
        fl_accepted_weight (foldl (spec_step_fl rt pm pmax mw) ?s' items))"
    by (rule Cons.IH)
  finally show ?case by simp
qed

section \<open>The online algorithm and its specification\<close>

text \<open>
  C1 says that for every item stream and all parameters \<open>p_min > 0\<close>, \<open>p_max \<ge> p_min\<close>,
  \<open>max_weight \<ge> 0\<close> the online algorithm runs the steps of the specification and
  returns the accepted value after the last item. With the Python integers
  \<open>p_min = 1\<close>, \<open>p_max = 10\<^sup>4\<^sup>0\<^sup>0\<close>, \<open>max_weight = 1\<close> it returns nothing:
  \<^verbatim>\<open>p_max / p_min\<close> raises \<^verbatim>\<open>OverflowError\<close> before the first item.
\<close>

theorem online_knapsack_overflow_counterexample:
  "\<forall>rt. online_knapsack_fl rt [NpItem (Fin 2) (Fin 1) (Fin 2)] (PyInt 1) (PyInt (10 ^ 400)) (PyInt 1)
          = Inl OverflowError"
  by (simp add: online_knapsack_fl_def compute_beta_def py_truediv_def dbl_overflow_def)

text \<open>
  C1, amended: for every item stream and parameters \<open>p_min > 0\<close>, \<open>p_max \<ge> p_min\<close>,
  \<open>max_weight \<ge> 0\<close> given as floats, numpy scalars or integers within \<open>2\<^sup>5\<^sup>3\<close>, the
  online algorithm processes the items in arrival order from accepted weight 0 and
  accepted value 0; with \<open>beta = max_weight / (1 + ln (p_max / p_min))\<close>, each operation
  being the float operation of the runtime, the threshold of a step is \<open>p_min\<close> when
  the accepted weight is below \<open>beta\<close> and \<open>p_min \<cdot> exp (accepted_weight / beta - 1)\<close>
  otherwise; the item is accepted in full exactly when its ratio exceeds the threshold
  and the accepted weight plus its weight is at most \<open>max_weight\<close> (its weight and value
  being added to the state), and skipped for good otherwise; the result is the accepted
  value after the last item. The comparisons are those of the reals on finite floats,
  strict for the ratio, and false on \<^verbatim>\<open>nan\<close>.
\<close>

theorem online_knapsack_runs_spec:
  assumes "float_like p_min" and "float_like p_max" and "float_like max_weight"
    and "np_lt (Fin 0) (num_val p_min)" and "np_le (num_val p_min) (num_val p_max)"
    and "np_le (Fin 0) (num_val max_weight)"
  shows "online_knapsack_fl rt items p_min p_max max_weight
           = Inr (fl_accepted_value
               (spec_run_fl rt items (num_val p_min) (num_val p_max) (num_val max_weight)))
       \<and> compute_beta rt p_min p_max max_weight
           = Inr (fl_div rt (num_val max_weight)
                   (fl_add rt (Fin 1) (fl_log rt (fl_div rt (num_val p_max) (num_val p_min)))))
       \<and> (\<forall>a b. np_lt (Fin a) (Fin b) = (a < b))
       \<and> (\<forall>a b. np_gt (Fin a) (Fin b) = (b < a))
       \<and> (\<forall>a b. np_le (Fin a) (Fin b) = (a \<le> b))
       \<and> (\<forall>t. \<not> np_gt NaN t \<and> \<not> np_gt t NaN)"
proof -
  have nz: "\<not> python_zero_division p_max p_min"
    using positive_not_zero_division [OF assms(4)] .
  have beta: "compute_beta rt p_min p_max max_weight
           = Inr (fl_div rt (num_val max_weight)
                   (fl_add rt (Fin 1) (fl_log rt (fl_div rt (num_val p_max) (num_val p_min)))))"
    using compute_beta_float_like [OF assms(1,2,3), of rt] nz by simp
  have loop: "online_loop_fl rt p_min (num_val max_weight)
           (fl_div rt (num_val max_weight)
              (fl_add rt (Fin 1) (fl_log rt (fl_div rt (num_val p_max) (num_val p_min))))) items
           (Fin 0, Fin 0)
     = Inr (fl_accepted_value
               (spec_run_fl rt items (num_val p_min) (num_val p_max) (num_val max_weight)),
            fl_accepted_weight
               (spec_run_fl rt items (num_val p_min) (num_val p_max) (num_val max_weight)))"
    using spec_step_fl_loop [OF to_np_float_like [OF assms(1), of rt],
        of "num_val max_weight" "num_val p_max" items
           "\<lparr>fl_accepted_weight = Fin 0, fl_accepted_value = Fin 0\<rparr>"]
    by (simp add: spec_run_fl_def)
  have run: "online_knapsack_fl rt items p_min p_max max_weight
           = Inr (fl_accepted_value
               (spec_run_fl rt items (num_val p_min) (num_val p_max) (num_val max_weight)))"
    using beta to_np_float_like [OF assms(3), of rt] loop
    by (simp add: online_knapsack_fl_def)
  have cmp: "(\<forall>a b. np_lt (Fin a) (Fin b) = (a < b))
       \<and> (\<forall>a b. np_gt (Fin a) (Fin b) = (b < a))
       \<and> (\<forall>a b. np_le (Fin a) (Fin b) = (a \<le> b))
       \<and> (\<forall>t. \<not> np_gt NaN t \<and> \<not> np_gt t NaN)"
    by (simp add: np_gt_def np_lt_def np_le_def)
  show ?thesis using run beta cmp by blast
qed

theorem online_knapsack_runs_spec_witness:
  "\<forall>rt. float_like (PyInt 1) \<and> float_like (PyInt 5) \<and> float_like (PyFloat (Fin 1))
     \<and> np_lt (Fin 0) (num_val (PyInt 1)) \<and> np_le (num_val (PyInt 1)) (num_val (PyInt 5))
     \<and> np_le (Fin 0) (num_val (PyFloat (Fin 1)))
     \<and> online_knapsack_fl rt [NpItem (Fin (6/5)) (Fin (3/10)) (Fin 4), NpItem (Fin (3/2)) (Fin (1/2)) (Fin 3)]
           (PyInt 1) (PyInt 5) (PyFloat (Fin 1))
         = Inr (fl_accepted_value (spec_run_fl rt
             [NpItem (Fin (6/5)) (Fin (3/10)) (Fin 4), NpItem (Fin (3/2)) (Fin (1/2)) (Fin 3)]
             (num_val (PyInt 1)) (num_val (PyInt 5)) (num_val (PyFloat (Fin 1)))))"
proof
  fix rt
  have f: "float_like (PyInt 1)" "float_like (PyInt 5)" "float_like (PyFloat (Fin 1))"
    by simp_all
  have h: "np_lt (Fin 0) (num_val (PyInt 1))" "np_le (num_val (PyInt 1)) (num_val (PyInt 5))"
    "np_le (Fin 0) (num_val (PyFloat (Fin 1)))"
    by (simp_all add: np_lt_def np_le_def)
  show "float_like (PyInt 1) \<and> float_like (PyInt 5) \<and> float_like (PyFloat (Fin 1))
     \<and> np_lt (Fin 0) (num_val (PyInt 1)) \<and> np_le (num_val (PyInt 1)) (num_val (PyInt 5))
     \<and> np_le (Fin 0) (num_val (PyFloat (Fin 1)))
     \<and> online_knapsack_fl rt [NpItem (Fin (6/5)) (Fin (3/10)) (Fin 4), NpItem (Fin (3/2)) (Fin (1/2)) (Fin 3)]
           (PyInt 1) (PyInt 5) (PyFloat (Fin 1))
         = Inr (fl_accepted_value (spec_run_fl rt
             [NpItem (Fin (6/5)) (Fin (3/10)) (Fin 4), NpItem (Fin (3/2)) (Fin (1/2)) (Fin 3)]
             (num_val (PyInt 1)) (num_val (PyInt 5)) (num_val (PyFloat (Fin 1)))))"
    using online_knapsack_runs_spec [OF f h, of rt
        "[NpItem (Fin (6/5)) (Fin (3/10)) (Fin 4), NpItem (Fin (3/2)) (Fin (1/2)) (Fin 3)]"] f h
    by blast
qed

section \<open>Online against offline\<close>

text \<open>
  C2: for \<open>0 < p_min \<le> p_max\<close> and a budget \<open>max_weight \<ge> 0\<close>, the value returned by
  the online algorithm is at most the optimum of the fractional linear program (maximise
  \<open>\<Sum> value\<^sub>i x\<^sub>i\<close> subject to \<open>\<Sum> weight\<^sub>i x\<^sub>i \<le> max_weight\<close>, \<open>0 \<le> x\<^sub>i \<le> 1\<close>) that
  the offline optimizer computes on the same items. The optimum is the number the
  driver records, \<^verbatim>\<open>offline = -offline_knapsack(items, max_weight)\<close>; the solver is
  assumed to meet its contract on this problem. The items need not be valid for this:
  neither positive weights nor ratios within the bounds are used.
\<close>

theorem online_le_offline:
  assumes "0 < p_min" and "p_min \<le> p_max" and "0 \<le> max_weight"
    and "linprog_solves linprog items max_weight"
  shows "\<exists>online. online_knapsack items p_min p_max max_weight = Inr online
           \<and> online \<le> - offline_knapsack linprog items max_weight
           \<and> knapsack_maximum items max_weight (- offline_knapsack linprog items max_weight)"
proof -
  obtain x where x: "knapsack_feasible items max_weight x"
    "fst (online_loop p_min max_weight (beta_of p_min p_max max_weight) items (0, 0))
       = knapsack_value items x"
    using online_loop_feasible [OF assms(3)] by blast
  have m: "knapsack_maximum items max_weight (- offline_knapsack linprog items max_weight)"
    using offline_knapsack_neg_maximum [OF assms(4)] .
  then have "knapsack_value items x \<le> - offline_knapsack linprog items max_weight"
    using x(1) by (simp add: knapsack_maximum_def)
  then show ?thesis using assms(1) x(2) m by (simp add: online_knapsack_def)
qed

theorem online_le_offline_witness:
  "(0::real) < 1 \<and> (1::real) \<le> 5 \<and> (0::real) \<le> 1
     \<and> linprog_solves (fixed_linprog (OptimizeResult [0, 1] (- 4)))
           [Item 3 1 (Fin 3), Item 4 1 (Fin 4)] 1
     \<and> (\<exists>online. online_knapsack [Item 3 1 (Fin 3), Item 4 1 (Fin 4)] 1 5 1 = Inr online
           \<and> online \<le> - offline_knapsack (fixed_linprog (OptimizeResult [0, 1] (- 4)))
                            [Item 3 1 (Fin 3), Item 4 1 (Fin 4)] 1
           \<and> knapsack_maximum [Item 3 1 (Fin 3), Item 4 1 (Fin 4)] 1
               (- offline_knapsack (fixed_linprog (OptimizeResult [0, 1] (- 4)))
                    [Item 3 1 (Fin 3), Item 4 1 (Fin 4)] 1))"
proof -
  have h: "(0::real) < 1" "(1::real) \<le> 5" "(0::real) \<le> 1" by simp_all
  show ?thesis
    using online_le_offline [OF h pair_instance_solved] h pair_instance_solved by blast
qed

section \<open>The capacity is never exceeded\<close>

text \<open>
  C3: for every \<open>max_weight \<ge> 0\<close> and every item stream, the accepted weight of the
  online algorithm is at most \<open>max_weight\<close> after every step of the loop, not only at
  the end: the state after the first \<open>k\<close> items, from which the run continues, has
  \<open>y \<le> max_weight\<close>. This holds for every \<open>beta\<close> and \<open>p_min\<close>, so for every
  parameterisation on which the loop runs, and the weights need not be non-negative.
\<close>

theorem accepted_weight_le_capacity:
  assumes "0 \<le> max_weight" and "k \<le> length items"
  shows "snd (online_loop p_min max_weight beta (take k items) (0, 0)) \<le> max_weight
       \<and> online_loop p_min max_weight beta items (0, 0)
           = online_loop p_min max_weight beta (drop k items)
               (online_loop p_min max_weight beta (take k items) (0, 0))"
proof -
  have "snd (online_loop p_min max_weight beta (take k items) (0, 0)) \<le> max_weight"
    using assms(1) by (intro online_loop_capacity) simp
  moreover have "online_loop p_min max_weight beta (take k items @ drop k items) (0, 0)
           = online_loop p_min max_weight beta (drop k items)
               (online_loop p_min max_weight beta (take k items) (0, 0))"
    by (rule online_loop_append)
  ultimately show ?thesis by simp
qed

theorem accepted_weight_le_capacity_witness:
  "(0::real) \<le> 1 \<and> (1::nat) \<le> length [Item 2 1 (Fin 2), Item 2 1 (Fin 2)]
     \<and> snd (online_loop 1 1 (beta_of 1 5 1) (take 1 [Item 2 1 (Fin 2), Item 2 1 (Fin 2)]) (0, 0))
         \<le> 1"
proof -
  have h: "(0::real) \<le> 1" "(1::nat) \<le> length [Item 2 1 (Fin 2), Item 2 1 (Fin 2)]"
    by simp_all
  show ?thesis
    using accepted_weight_le_capacity [OF h, of 1 "beta_of 1 5 1"] h by blast
qed

section \<open>What the offline optimizer returns\<close>

text \<open>
  C4 says that the solve operation returns the optimum of the fractional knapsack
  program as a non-negative maximum, the solver's result being negated back before the
  solve operation itself returns it; the comment above the \<^verbatim>\<open>return\<close> of
  \<^verbatim>\<open>offline_knapsack\<close> says the same (\<^verbatim>\<open># return the maximum value that can be
  obtained\<close>). The code negates the objective and returns the solver's minimum
  \<^verbatim>\<open>result.fun\<close> as it is: on the one item of value 2 and weight 1 with budget 1,
  where the solver's optimal point is \<open>x = [1]\<close> with \<^verbatim>\<open>fun\<close> \<open>= -2\<close> and the maximum
  is 2, \<^verbatim>\<open>offline_knapsack\<close> returns \<open>-2\<close>.
\<close>

theorem offline_knapsack_returns_minimum:
  "offline_knapsack (fixed_linprog (OptimizeResult [1] (- 2))) [Item 2 1 (Fin 2)] 1 = - 2"
  by (simp add: offline_knapsack_def fixed_linprog_def)

section \<open>Invalid parameters\<close>

text \<open>
  C5 says that on every invalid parameterisation (\<open>p_min \<le> 0\<close>, \<open>p_max < p_min\<close>,
  \<open>max_weight < 0\<close>, \<open>epsilon \<le> 0\<close>, \<open>n \<le> 0\<close>, an item of weight \<open>\<le> 0\<close>) the online
  algorithm and the experiment driver fail fast with a \<^verbatim>\<open>DomainError\<close> before any
  algorithm runs. The code checks nothing. With \<open>p_min = -1\<close>, \<open>p_max = -2\<close>,
  \<open>max_weight = -1\<close> and an item of weight 0 the online algorithm returns 0; with
  \<open>p_min = 2 > p_max = 1\<close> and the weight draw 0 a trial of the driver runs the offline
  solver and the online algorithm and returns the pair of their results. Both hold
  whatever the runtime rounds to.
\<close>

theorem no_parameter_validation_counterexample:
  "\<forall>rt. online_knapsack_fl rt [NpItem (Fin 0) (Fin 0) NaN] (PyInt (- 1)) (PyInt (- 2)) (PyInt (- 1))
          = Inr (Fin 0)
     \<and> test_trial rt (fixed_linprog_fl (Inr (Fin 0))) [Fin 0] [Fin (3/2)] (PyInt 1) (PyInt 2) (PyInt 1)
          = Inr (NegZero, Fin 0)"
proof
  fix rt
  have nan: "\<not> np_gt NaN t" for t by (simp add: np_gt_def np_lt_def)
  have loop: "online_loop_fl rt p_min mw beta [NpItem v w NaN] (Fin 0, Fin 0) = Inr (Fin 0, Fin 0)"
    if "float_like p_min" for p_min mw beta v w
    using that by (simp add: to_np_float_like nan)
  have a: "online_knapsack_fl rt [NpItem (Fin 0) (Fin 0) NaN] (PyInt (- 1)) (PyInt (- 2)) (PyInt (- 1))
          = Inr (Fin 0)"
    by (simp add: online_knapsack_fl_float_like python_zero_division_def loop del: online_loop_fl.simps)
  have items: "gen_items_fl rt [Fin 0] [Fin (3/2)] = [NpItem (Fin 0) (Fin 0) NaN]"
    by (simp add: gen_items_fl_def fl_mul_def fl_div_def zero_of_def)
  have b: "online_knapsack_fl rt [NpItem (Fin 0) (Fin 0) NaN] (PyInt 2) (PyInt 1) (PyInt 1)
          = Inr (Fin 0)"
    by (simp add: online_knapsack_fl_float_like python_zero_division_def loop del: online_loop_fl.simps)
  have c: "test_trial rt (fixed_linprog_fl (Inr (Fin 0))) [Fin 0] [Fin (3/2)] (PyInt 1) (PyInt 2) (PyInt 1)
          = Inr (NegZero, Fin 0)"
    by (simp add: test_trial_def items b offline_knapsack_fl_def fixed_linprog_fl_def)
  show "online_knapsack_fl rt [NpItem (Fin 0) (Fin 0) NaN] (PyInt (- 1)) (PyInt (- 2)) (PyInt (- 1))
          = Inr (Fin 0)
     \<and> test_trial rt (fixed_linprog_fl (Inr (Fin 0))) [Fin 0] [Fin (3/2)] (PyInt 1) (PyInt 2) (PyInt 1)
          = Inr (NegZero, Fin 0)"
    using a c by simp
qed

text \<open>
  C5, amended: neither the online algorithm nor the driver validates a parameter, and
  there is no \<^verbatim>\<open>DomainError\<close>. For parameters that are floats, numpy scalars or
  integers within \<open>2\<^sup>5\<^sup>3\<close>, of any sign and in any order, and for any items, the online
  algorithm raises exactly when \<^verbatim>\<open>p_max / p_min\<close> is a division of two Python
  numbers by zero, and then \<^verbatim>\<open>ZeroDivisionError\<close>; otherwise it runs the loop to the
  end and returns a value. A trial of the driver in which the solver returns behaves
  the same: it has generated the items and run the solver before the online algorithm
  raises or returns. (\<open>epsilon\<close> and \<open>n\<close> are handed to the random source only.)
\<close>

theorem no_parameter_validation:
  assumes "float_like p_min" and "float_like p_max" and "float_like max_weight"
  shows "(python_zero_division p_max p_min \<longrightarrow>
            online_knapsack_fl rt items p_min p_max max_weight = Inl ZeroDivisionError)
       \<and> (\<not> python_zero_division p_max p_min \<longrightarrow>
            (\<exists>v. online_knapsack_fl rt items p_min p_max max_weight = Inr v))
       \<and> (\<forall>f. offline_knapsack_fl linprog (gen_items_fl rt weights densities) max_weight = Inr f \<longrightarrow>
            (python_zero_division p_max p_min \<longrightarrow>
               test_trial rt linprog weights densities max_weight p_min p_max
                 = Inl ZeroDivisionError)
            \<and> (\<not> python_zero_division p_max p_min \<longrightarrow>
               (\<exists>online. test_trial rt linprog weights densities max_weight p_min p_max
                  = Inr (np_neg f, online))))"
proof -
  have trial: "(python_zero_division p_max p_min \<longrightarrow>
               test_trial rt linprog weights densities max_weight p_min p_max
                 = Inl ZeroDivisionError)
            \<and> (\<not> python_zero_division p_max p_min \<longrightarrow>
               (\<exists>online. test_trial rt linprog weights densities max_weight p_min p_max
                  = Inr (np_neg f, online)))"
    if f: "offline_knapsack_fl linprog (gen_items_fl rt weights densities) max_weight = Inr f" for f
  proof (cases "python_zero_division p_max p_min")
    case True
    then have "online_knapsack_fl rt (gen_items_fl rt weights densities) p_min p_max max_weight
                 = Inl ZeroDivisionError"
      using online_knapsack_fl_raises_or_returns [OF assms] by blast
    then show ?thesis using True f by (simp add: test_trial_def)
  next
    case False
    then obtain v where
      "online_knapsack_fl rt (gen_items_fl rt weights densities) p_min p_max max_weight = Inr v"
      using online_knapsack_fl_raises_or_returns [OF assms] by blast
    then show ?thesis using False f by (simp add: test_trial_def)
  qed
  show ?thesis
    using online_knapsack_fl_raises_or_returns [OF assms, of rt items] trial by blast
qed

theorem no_parameter_validation_witness:
  "\<forall>rt. float_like (PyInt (- 1)) \<and> float_like (PyInt (- 2)) \<and> float_like (PyFloat (Fin (- 1)))
     \<and> \<not> python_zero_division (PyInt (- 2)) (PyInt (- 1))
     \<and> (\<exists>v. online_knapsack_fl rt [NpItem (Fin 2) (Fin 1) (Fin 2)] (PyInt (- 1)) (PyInt (- 2))
              (PyFloat (Fin (- 1))) = Inr v)
     \<and> python_zero_division (PyInt 5) (PyFloat (Fin 0))
     \<and> online_knapsack_fl rt [NpItem (Fin 2) (Fin 1) (Fin 2)] (PyFloat (Fin 0)) (PyInt 5) (PyInt 1)
         = Inl ZeroDivisionError"
proof
  fix rt
  have h1: "float_like (PyInt (- 1))" "float_like (PyInt (- 2))" "float_like (PyFloat (Fin (- 1)))"
    by simp_all
  have h2: "float_like (PyFloat (Fin 0))" "float_like (PyInt 5)" "float_like (PyInt 1)"
    by simp_all
  have z1: "\<not> python_zero_division (PyInt (- 2)) (PyInt (- 1))"
    and z2: "python_zero_division (PyInt 5) (PyFloat (Fin 0))"
    by (simp_all add: python_zero_division_def)
  show "float_like (PyInt (- 1)) \<and> float_like (PyInt (- 2)) \<and> float_like (PyFloat (Fin (- 1)))
     \<and> \<not> python_zero_division (PyInt (- 2)) (PyInt (- 1))
     \<and> (\<exists>v. online_knapsack_fl rt [NpItem (Fin 2) (Fin 1) (Fin 2)] (PyInt (- 1)) (PyInt (- 2))
              (PyFloat (Fin (- 1))) = Inr v)
     \<and> python_zero_division (PyInt 5) (PyFloat (Fin 0))
     \<and> online_knapsack_fl rt [NpItem (Fin 2) (Fin 1) (Fin 2)] (PyFloat (Fin 0)) (PyInt 5) (PyInt 1)
         = Inl ZeroDivisionError"
    using no_parameter_validation [OF h1, of rt "[NpItem (Fin 2) (Fin 1) (Fin 2)]"]
      no_parameter_validation [OF h2, of rt "[NpItem (Fin 2) (Fin 1) (Fin 2)]"] h1 z1 z2
    by blast
qed

section \<open>Equal density bounds\<close>

text \<open>
  C6 says that with \<open>p_min = p_max = d > 0\<close> the threshold is the constant \<open>d\<close> at
  every step of the run, for every \<open>max_weight\<close>. With \<open>max_weight = 0\<close> the code has
  \<open>beta = 0\<close> and divides the accepted weight 0 by it: the threshold of the first step
  is \<^verbatim>\<open>nan\<close>, not \<open>d\<close>.
\<close>

theorem degenerate_threshold_nan_counterexample:
  "\<forall>rt. compute_beta rt (PyInt 1) (PyInt 1) (PyInt 0) = Inr (Fin 0)
     \<and> threshold_fl rt (Fin 1) (Fin 0) (Fin 0) = NaN"
  by (simp add: compute_beta_def py_truediv_def dbl_overflow_def fl_div_def fl_add_def
      threshold_fl_def np_lt_def fl_sub_def fl_mul_def zero_of_def)

text \<open>
  C6, amended: when \<open>p_min = p_max = d\<close> with \<open>d > 0\<close> finite and \<open>max_weight > 0\<close>
  finite (floats, numpy scalars or integers within \<open>2\<^sup>5\<^sup>3\<close>), alpha is 1, beta is
  \<open>max_weight\<close>, the threshold is \<open>d\<close> at every step of the run, and the online
  algorithm is the fixed-threshold greedy: in arrival order it accepts exactly the items
  with ratio above \<open>d\<close> whose weight, added to the accepted weight, does not exceed
  \<open>max_weight\<close>; an item that does not fit is skipped and the later items are still
  looked at. This holds whatever the runtime rounds to.
\<close>

theorem degenerate_threshold_is_greedy:
  assumes "float_like d" and "is_finite (num_val d)" and "np_lt (Fin 0) (num_val d)"
    and "float_like max_weight" and "is_finite (num_val max_weight)"
    and "np_lt (Fin 0) (num_val max_weight)"
  shows "fl_add rt (Fin 1) (fl_log rt (fl_div rt (num_val d) (num_val d))) = Fin 1
       \<and> compute_beta rt d d max_weight = Inr (num_val max_weight)
       \<and> (\<forall>k \<le> length items. \<exists>tv y.
             online_loop_fl rt d (num_val max_weight) (num_val max_weight) (take k items)
               (Fin 0, Fin 0) = Inr (tv, y)
             \<and> threshold_fl rt (num_val d) (num_val max_weight) y = num_val d)
       \<and> online_knapsack_fl rt items d d max_weight
           = Inr (fl_accepted_value (greedy_run_fl rt items (num_val d) (num_val max_weight)))
       \<and> (\<forall>a b. np_gt (Fin a) (Fin b) = (b < a))
       \<and> (\<forall>a b. np_le (Fin a) (Fin b) = (a \<le> b))"
proof -
  obtain dr where d: "num_val d = Fin dr" and dr: "0 < dr"
    using positive_finite_cases [OF assms(2,3)] by blast
  obtain m where mw: "num_val max_weight = Fin m" and m: "0 < m"
    using positive_finite_cases [OF assms(5,6)] by blast
  have conv: "to_np rt d = Inr (Fin dr)" using to_np_float_like [OF assms(1), of rt] d by simp
  have nz: "\<not> python_zero_division d d" using dr d by (simp add: python_zero_division_def)
  have alpha: "fl_add rt (Fin 1) (fl_log rt (fl_div rt (num_val d) (num_val d))) = Fin 1"
    using dr by (simp add: d fl_div_self fl_add_def)
  have beta: "compute_beta rt d d max_weight = Inr (num_val max_weight)"
    using compute_beta_float_like [OF assms(1) assms(1) assms(4), of rt] nz alpha m
    by (simp add: mw fl_div_one)
  have start: "np_le (fl_accepted_weight \<lparr>fl_accepted_weight = Fin 0, fl_accepted_value = Fin 0\<rparr>) (Fin m)"
    using m by (simp add: np_le_def)
  have loop: "online_loop_fl rt d (Fin m) (Fin m) xs (Fin 0, Fin 0)
     = Inr (fl_accepted_value (greedy_run_fl rt xs (Fin dr) (Fin m)),
            fl_accepted_weight (greedy_run_fl rt xs (Fin dr) (Fin m)))" for xs
    using greedy_step_fl_loop [OF m dr conv start, of xs] by (simp add: greedy_run_fl_def)
  have thr: "\<forall>k \<le> length items. \<exists>tv y.
             online_loop_fl rt d (Fin m) (Fin m) (take k items) (Fin 0, Fin 0) = Inr (tv, y)
             \<and> threshold_fl rt (Fin dr) (Fin m) y = Fin dr"
  proof (intro allI impI)
    fix k
    let ?tv = "fl_accepted_value (greedy_run_fl rt (take k items) (Fin dr) (Fin m))"
    let ?y = "fl_accepted_weight (greedy_run_fl rt (take k items) (Fin dr) (Fin m))"
    have run: "online_loop_fl rt d (Fin m) (Fin m) (take k items) (Fin 0, Fin 0) = Inr (?tv, ?y)"
      by (rule loop)
    have "np_le (snd (?tv, ?y)) (Fin m)"
      using online_loop_fl_capacity [OF _ run] m by (simp add: np_le_def)
    then have "threshold_fl rt (Fin dr) (Fin m) ?y = Fin dr"
      using threshold_fl_degenerate [OF m dr] by simp
    then show "\<exists>tv y. online_loop_fl rt d (Fin m) (Fin m) (take k items) (Fin 0, Fin 0) = Inr (tv, y)
             \<and> threshold_fl rt (Fin dr) (Fin m) y = Fin dr"
      using run by blast
  qed
  have run: "online_knapsack_fl rt items d d max_weight
           = Inr (fl_accepted_value (greedy_run_fl rt items (Fin dr) (Fin m)))"
    using beta to_np_float_like [OF assms(4), of rt] loop [of items]
    by (simp add: online_knapsack_fl_def mw)
  have cmp: "(\<forall>a b. np_gt (Fin a) (Fin b) = (b < a)) \<and> (\<forall>a b. np_le (Fin a) (Fin b) = (a \<le> b))"
    by (simp add: np_gt_def np_lt_def np_le_def)
  show ?thesis using alpha beta thr run cmp unfolding d mw by blast
qed

theorem degenerate_threshold_is_greedy_witness:
  "\<forall>rt. float_like (PyInt 2) \<and> is_finite (num_val (PyInt 2)) \<and> np_lt (Fin 0) (num_val (PyInt 2))
     \<and> float_like (PyFloat (Fin 1)) \<and> is_finite (num_val (PyFloat (Fin 1)))
     \<and> np_lt (Fin 0) (num_val (PyFloat (Fin 1)))
     \<and> compute_beta rt (PyInt 2) (PyInt 2) (PyFloat (Fin 1)) = Inr (num_val (PyFloat (Fin 1)))
     \<and> online_knapsack_fl rt [NpItem (Fin 3) (Fin (3/4)) (Fin 4), NpItem (Fin 3) (Fin (1/2)) (Fin 6)]
           (PyInt 2) (PyInt 2) (PyFloat (Fin 1))
         = Inr (fl_accepted_value (greedy_run_fl rt
             [NpItem (Fin 3) (Fin (3/4)) (Fin 4), NpItem (Fin 3) (Fin (1/2)) (Fin 6)]
             (num_val (PyInt 2)) (num_val (PyFloat (Fin 1)))))"
proof
  fix rt
  have d: "float_like (PyInt 2)" "is_finite (num_val (PyInt 2))" "np_lt (Fin 0) (num_val (PyInt 2))"
    by (simp_all add: is_finite_def np_lt_def)
  have m: "float_like (PyFloat (Fin 1))" "is_finite (num_val (PyFloat (Fin 1)))"
    "np_lt (Fin 0) (num_val (PyFloat (Fin 1)))"
    by (simp_all add: is_finite_def np_lt_def)
  show "float_like (PyInt 2) \<and> is_finite (num_val (PyInt 2)) \<and> np_lt (Fin 0) (num_val (PyInt 2))
     \<and> float_like (PyFloat (Fin 1)) \<and> is_finite (num_val (PyFloat (Fin 1)))
     \<and> np_lt (Fin 0) (num_val (PyFloat (Fin 1)))
     \<and> compute_beta rt (PyInt 2) (PyInt 2) (PyFloat (Fin 1)) = Inr (num_val (PyFloat (Fin 1)))
     \<and> online_knapsack_fl rt [NpItem (Fin 3) (Fin (3/4)) (Fin 4), NpItem (Fin 3) (Fin (1/2)) (Fin 6)]
           (PyInt 2) (PyInt 2) (PyFloat (Fin 1))
         = Inr (fl_accepted_value (greedy_run_fl rt
             [NpItem (Fin 3) (Fin (3/4)) (Fin 4), NpItem (Fin 3) (Fin (1/2)) (Fin 6)]
             (num_val (PyInt 2)) (num_val (PyFloat (Fin 1)))))"
    using degenerate_threshold_is_greedy [OF d m, of rt
        "[NpItem (Fin 3) (Fin (3/4)) (Fin 4), NpItem (Fin 3) (Fin (1/2)) (Fin 6)]"] d m
    by blast
qed

section \<open>The threshold is monotone\<close>

text \<open>
  C7: for fixed \<open>p_min > 0\<close>, \<open>p_max \<ge> p_min\<close> and \<open>max_weight > 0\<close>, the threshold of
  the online algorithm, \<open>p_min\<close> if \<open>y < beta\<close> and \<open>p_min \<cdot> exp (y / beta - 1)\<close>
  otherwise with \<open>beta = max_weight / (1 + ln (p_max / p_min))\<close>, is non-decreasing in
  the accepted weight: for \<open>0 \<le> y1 \<le> y2\<close> the threshold at \<open>y1\<close> is at most the
  threshold at \<open>y2\<close>. Both thresholds of the code are the finite numbers of the formula.
\<close>

theorem threshold_mono:
  assumes "0 < p_min" and "p_min \<le> p_max" and "0 < max_weight"
    and "0 \<le> y1" and "y1 \<le> y2"
  shows "threshold p_min (beta_of p_min p_max max_weight) y1
           = Fin (spec_threshold p_min p_max max_weight y1)
       \<and> threshold p_min (beta_of p_min p_max max_weight) y2
           = Fin (spec_threshold p_min p_max max_weight y2)
       \<and> spec_threshold p_min p_max max_weight y1 \<le> spec_threshold p_min p_max max_weight y2"
proof -
  define b where "b = max_weight / (1 + ln (p_max / p_min))"
  have a: "0 < 1 + ln (p_max / p_min)" using alpha_ge_1 [OF assms(1,2)] by linarith
  then have b: "0 < b" using assms(3) by (simp add: b_def)
  have mono: "spec_threshold p_min p_max max_weight y1 \<le> spec_threshold p_min p_max max_weight y2"
  proof (cases "y2 < b")
    case True
    then show ?thesis using assms(5) by (simp add: spec_threshold_def b_def [symmetric])
  next
    case y2: False
    then have "1 \<le> y2 / b" using b by (simp add: le_divide_eq_1_pos)
    then have e2: "1 \<le> exp (y2 / b - 1)" by simp
    show ?thesis
    proof (cases "y1 < b")
      case True
      have "p_min * 1 \<le> p_min * exp (y2 / b - 1)"
        using e2 assms(1) by (intro mult_left_mono) simp_all
      then show ?thesis using True y2 by (simp add: spec_threshold_def b_def [symmetric])
    next
      case False
      have "y1 / b \<le> y2 / b" using assms(5) b by (simp add: divide_right_mono)
      then have "exp (y1 / b - 1) \<le> exp (y2 / b - 1)" by simp
      then have "p_min * exp (y1 / b - 1) \<le> p_min * exp (y2 / b - 1)"
        using assms(1) by (intro mult_left_mono) simp_all
      then show ?thesis using False y2 by (simp add: spec_threshold_def b_def [symmetric])
    qed
  qed
  show ?thesis using threshold_valid [OF assms(1,2,3)] mono by simp
qed

theorem threshold_mono_witness:
  "(0::real) < 1 \<and> (1::real) \<le> 5 \<and> (0::real) < 1 \<and> (0::real) \<le> 3/10 \<and> (3/10::real) \<le> 1
     \<and> threshold 1 (beta_of 1 5 1) (3/10) = Fin (spec_threshold 1 5 1 (3/10))
     \<and> threshold 1 (beta_of 1 5 1) 1 = Fin (spec_threshold 1 5 1 1)
     \<and> spec_threshold 1 5 1 (3/10) \<le> spec_threshold 1 5 1 1"
proof -
  have h: "(0::real) < 1" "(1::real) \<le> 5" "(0::real) < 1" "(0::real) \<le> 3/10"
    "(3/10::real) \<le> 1" by simp_all
  show ?thesis using threshold_mono [OF h] h by blast
qed

section \<open>The concrete scenario\<close>

text \<open>
  C8: with \<open>p_min = 1\<close>, \<open>p_max = 5\<close>, \<open>max_weight = 1\<close> and the stream of the three
  items (weight 0.3, ratio 4), (weight 0.3, ratio 0.5), (weight 0.5, ratio 3), each of
  value ratio times weight, the online algorithm accepts the first item (state: value
  1.2, weight 0.3), rejects the second (state unchanged), accepts the third, ends with
  accepted weight 0.8 and returns \<open>0.3 \<cdot> 4 + 0.5 \<cdot> 3 = 2.7\<close>.
\<close>

theorem concrete_scenario:
  "online_loop 1 1 (beta_of 1 5 1) [Item (4 * 0.3) 0.3 (Fin 4)] (0, 0) = (1.2, 0.3)
   \<and> online_loop 1 1 (beta_of 1 5 1)
        [Item (4 * 0.3) 0.3 (Fin 4), Item (0.5 * 0.3) 0.3 (Fin 0.5)] (0, 0) = (1.2, 0.3)
   \<and> online_loop 1 1 (beta_of 1 5 1)
        [Item (4 * 0.3) 0.3 (Fin 4), Item (0.5 * 0.3) 0.3 (Fin 0.5), Item (3 * 0.5) 0.5 (Fin 3)]
        (0, 0) = (2.7, 0.8)
   \<and> online_knapsack
        [Item (4 * 0.3) 0.3 (Fin 4), Item (0.5 * 0.3) 0.3 (Fin 0.5), Item (3 * 0.5) 0.5 (Fin 3)]
        1 5 1 = Inr 2.7"
proof -
  have t0: "threshold 1 (beta_of 1 5 1) 0 = Fin 1" by (rule threshold_1_5_1) simp
  have t3: "threshold 1 (beta_of 1 5 1) (3/10) = Fin 1" by (rule threshold_1_5_1) simp
  show ?thesis by (simp add: online_knapsack_def t0 t3 np_gt_def np_lt_def)
qed

section \<open>The generated items\<close>

text \<open>
  C9 says that every generated item has a strictly positive weight, so that the ratio
  never divides by zero, and a ratio equal to the drawn density, within
  \<open>[p_min, p_max]\<close>. The code draws the weight with
  \<^verbatim>\<open>np.random.uniform(0, epsilon, n)\<close>, whose interval \<open>[0, epsilon)\<close> includes 0,
  and divides without a guard: on the weight draw 0 and the density draw 3 the item has
  weight 0, value 0 and the ratio \<^verbatim>\<open>0/0 = nan\<close>.
\<close>

theorem gen_items_zero_weight:
  "gen_items [0] [3] = [Item 0 0 NaN]"
  by (simp add: gen_items_def np_div_def)

section \<open>The empty stream\<close>

text \<open>
  C10 says that for every \<open>p_min > 0\<close>, \<open>p_max \<ge> p_min\<close> and \<open>max_weight \<ge> 0\<close> the
  online algorithm returns exactly 0 on the empty stream. With the Python integers
  \<open>p_min = 1\<close>, \<open>p_max = 10\<^sup>4\<^sup>0\<^sup>0\<close> and \<open>max_weight = 1\<close> the division
  \<^verbatim>\<open>p_max / p_min\<close> raises \<^verbatim>\<open>OverflowError\<close> before the loop.
\<close>

theorem empty_stream_overflow_counterexample:
  "\<forall>rt. online_knapsack_fl rt [] (PyInt 1) (PyInt (10 ^ 400)) (PyInt 1) = Inl OverflowError"
  by (simp add: online_knapsack_fl_def compute_beta_def py_truediv_def dbl_overflow_def)

text \<open>
  C10, amended: for \<open>p_min > 0\<close>, \<open>p_max \<ge> p_min\<close> and \<open>max_weight \<ge> 0\<close> given as
  floats, numpy scalars or integers within \<open>2\<^sup>5\<^sup>3\<close>, the online algorithm on the empty
  stream returns exactly 0, the state of the loop being unchanged at accepted weight 0
  and accepted value 0; for larger Python integers it can raise instead, and whenever
  it returns, it returns 0.
\<close>

theorem empty_stream_returns_zero:
  assumes "np_lt (Fin 0) (num_val p_min)" and "np_le (num_val p_min) (num_val p_max)"
    and "np_le (Fin 0) (num_val max_weight)"
  shows "(float_like p_min \<and> float_like p_max \<and> float_like max_weight \<longrightarrow>
            online_knapsack_fl rt [] p_min p_max max_weight = Inr (Fin 0))
       \<and> (\<forall>v. online_knapsack_fl rt [] p_min p_max max_weight = Inr v \<longrightarrow> v = Fin 0)
       \<and> online_loop_fl rt p_min mw beta [] (Fin 0, Fin 0) = Inr (Fin 0, Fin 0)"
proof -
  have a: "online_knapsack_fl rt [] p_min p_max max_weight = Inr (Fin 0)"
    if "float_like p_min \<and> float_like p_max \<and> float_like max_weight"
  proof -
    have "online_knapsack_fl rt [] p_min p_max max_weight =
       Inr (fst (projr (online_loop_fl rt p_min (num_val max_weight)
         (fl_div rt (num_val max_weight)
            (fl_add rt (Fin 1) (fl_log rt (fl_div rt (num_val p_max) (num_val p_min)))))
         [] (Fin 0, Fin 0))))"
      using that positive_not_zero_division [OF assms(1), of p_max]
        online_knapsack_fl_float_like [of p_min p_max max_weight rt "[]"]
      by presburger
    then show ?thesis by simp
  qed
  have b: "v = Fin 0" if "online_knapsack_fl rt [] p_min p_max max_weight = Inr v" for v
  proof (cases "compute_beta rt p_min p_max max_weight")
    case (Inl e)
    then show ?thesis using that by (simp add: online_knapsack_fl_def)
  next
    case (Inr beta)
    show ?thesis
    proof (cases "to_np rt max_weight")
      case (Inl e)
      then show ?thesis using that Inr by (simp add: online_knapsack_fl_def)
    next
      case mw: (Inr mw)
      then show ?thesis using that Inr by (simp add: online_knapsack_fl_def)
    qed
  qed
  have c: "online_loop_fl rt p_min mw beta [] (Fin 0, Fin 0) = Inr (Fin 0, Fin 0)" by simp
  show ?thesis using a b c by blast
qed

theorem empty_stream_returns_zero_witness:
  "\<forall>rt. np_lt (Fin 0) (num_val (PyInt 1)) \<and> np_le (num_val (PyInt 1)) (num_val (PyFloat (Fin 5)))
     \<and> np_le (Fin 0) (num_val (PyInt 1))
     \<and> online_knapsack_fl rt [] (PyInt 1) (PyFloat (Fin 5)) (PyInt 1) = Inr (Fin 0)"
proof
  fix rt
  have h: "np_lt (Fin 0) (num_val (PyInt 1))" "np_le (num_val (PyInt 1)) (num_val (PyFloat (Fin 5)))"
    "np_le (Fin 0) (num_val (PyInt 1))" by (simp_all add: np_lt_def np_le_def)
  have f: "float_like (PyInt 1) \<and> float_like (PyFloat (Fin 5)) \<and> float_like (PyInt 1)" by simp
  show "np_lt (Fin 0) (num_val (PyInt 1)) \<and> np_le (num_val (PyInt 1)) (num_val (PyFloat (Fin 5)))
     \<and> np_le (Fin 0) (num_val (PyInt 1))
     \<and> online_knapsack_fl rt [] (PyInt 1) (PyFloat (Fin 5)) (PyInt 1) = Inr (Fin 0)"
    using empty_stream_returns_zero [OF h, of rt] h f by blast
qed

end
